theory Spec2Isabelle
  imports Complex_Main "HOL-Library.Word" "HOL-Library.Sublist"
begin

section \<open>JavaScript values as script.js sees them\<close>

text \<open>
  A JavaScript string is a sequence of 16-bit code units. The literals of the script are
  ASCII; \<open>ascii\<close> turns a HOL string literal into code units.
\<close>

type_synonym jsstring = "16 word list"

type_synonym byte = "8 word"

definition ascii :: "string \<Rightarrow> jsstring" where
  "ascii s = map of_char s"

text \<open>
  A Number is a finite value, an infinity or NaN. A finite Number is held by its exact
  mathematical value (every binary64 value is a rational; +0 and -0 are both \<open>Fin 0\<close>:
  the script only tests truthiness and prints numbers, and both zeros are falsy and print
  alike). \<open>JSON.parse\<close> yields finite values and, on a literal out of the binary64
  range such as \<open>1e999\<close>, an infinity.
\<close>

datatype jsnum = Fin rat | PosInf | NegInf | NaN

text \<open>
  The values the script handles: \<open>undefined\<close>, and what \<open>response.json()\<close> builds
  (null, booleans, numbers, strings, arrays, plain objects as key/value lists read with
  \<open>map_of\<close>).
\<close>

datatype jsval =
    Undefined
  | Null
  | Boolean bool
  | Number jsnum
  | String jsstring
  | Array "jsval list"
  | Object "(jsstring \<times> jsval) list"

text \<open>
  Thrown values. Everything thrown in this script is an error object; the handler reads
  only its \<open>message\<close>.
\<close>

datatype ekind = Error | TypeError | RangeError | SyntaxError | InvalidCharacterError | OtherError

datatype exn = Exn ekind jsstring

fun message :: "exn \<Rightarrow> jsstring" where
  "message (Exn k m) = m"

text \<open>
  What the language standard leaves to the engine: the text of a finite positive Number
  (the standard does not fix its last digit) and the message of an error the engine
  itself raises. Both are parameters of the model.
\<close>

datatype fault =
    ReadOfNullish jsval jsstring
  | NotAFunction jsstring
  | NoPrimitiveValue
  | FractionDigitsRange
  | BadBase64

record engine =
  number_text :: "rat \<Rightarrow> jsstring"
  fault_text :: "fault \<Rightarrow> jsstring"

fun fault_kind :: "fault \<Rightarrow> ekind" where
  "fault_kind (ReadOfNullish v p) = TypeError"
| "fault_kind (NotAFunction p) = TypeError"
| "fault_kind NoPrimitiveValue = TypeError"
| "fault_kind FractionDigitsRange = RangeError"
| "fault_kind BadBase64 = InvalidCharacterError"

definition raise :: "engine \<Rightarrow> fault \<Rightarrow> exn" where
  "raise eng f = Exn (fault_kind f) (fault_text eng f)"

subsection \<open>ToBoolean, property reads\<close>

fun truthy :: "jsval \<Rightarrow> bool" where
  "truthy Undefined = False"
| "truthy Null = False"
| "truthy (Boolean b) = b"
| "truthy (Number (Fin q)) = (q \<noteq> 0)"
| "truthy (Number NaN) = False"
| "truthy (Number n) = True"
| "truthy (String s) = (s \<noteq> [])"
| "truthy (Array xs) = True"
| "truthy (Object kvs) = True"

text \<open>
  \<open>v.p\<close> for the property names the script reads (\<open>report_pdf\<close>, \<open>address\<close>,
  \<open>latitude\<close>, \<open>detail\<close>, ...): none of them is defined by a built-in prototype, so
  the read finds an own property of a plain object or nothing. Reading a property of
  \<open>undefined\<close> or \<open>null\<close> throws a TypeError.
\<close>

fun get_prop :: "engine \<Rightarrow> jsval \<Rightarrow> jsstring \<Rightarrow> exn + jsval" where
  "get_prop eng Undefined p = Inl (raise eng (ReadOfNullish Undefined p))"
| "get_prop eng Null p = Inl (raise eng (ReadOfNullish Null p))"
| "get_prop eng (Object kvs) p = Inr (case map_of kvs p of None \<Rightarrow> Undefined | Some v \<Rightarrow> v)"
| "get_prop eng v p = Inr Undefined"

subsection \<open>Number to string, toFixed\<close>

fun digits :: "nat \<Rightarrow> jsstring" where
  "digits n = (if n < 10 then [of_nat (48 + n)] else digits (n div 10) @ [of_nat (48 + n mod 10)])"

fun Number_toString :: "engine \<Rightarrow> jsnum \<Rightarrow> jsstring" where
  "Number_toString eng NaN = ascii ''NaN''"
| "Number_toString eng PosInf = ascii ''Infinity''"
| "Number_toString eng NegInf = ascii ''-Infinity''"
| "Number_toString eng (Fin q) =
     (if q = 0 then ascii ''0''
      else if q < 0 then ascii ''-'' @ number_text eng (- q)
      else number_text eng q)"

text \<open>
  \<open>Number.prototype.toFixed(f)\<close> as the language standard defines it, on the exact
  value of the number: the sign, then either the engine's text of the number (magnitude
  \<open>10^21\<close> and above) or the integer \<open>n\<close> nearest to \<open>x * 10^f\<close> (the larger one
  on a tie), padded with zeros to more than \<open>f\<close> digits and split by a point before
  the last \<open>f\<close>. A value that is not finite is printed by \<open>Number_toString\<close>.
\<close>

definition fixed_digits :: "rat \<Rightarrow> nat \<Rightarrow> jsstring" where
  "fixed_digits x f =
     (let n = nat \<lfloor>x * 10 ^ f + 1 / 2\<rfloor>;
          m = digits n
      in if f \<noteq> 0 then
           (let k = length m;
                m' = (if k \<le> f then replicate (f + 1 - k) 48 @ m else m);
                k' = (if k \<le> f then f + 1 else k)
            in take (k' - f) m' @ ascii ''.'' @ drop (k' - f) m')
         else m)"

fun toFixed :: "engine \<Rightarrow> jsnum \<Rightarrow> nat \<Rightarrow> exn + jsstring" where
  "toFixed eng x f =
     (if 100 < f then Inl (raise eng FractionDigitsRange)
      else case x of
        Fin q \<Rightarrow>
          (let s = (if q < 0 then ascii ''-'' else []);
               a = (if q < 0 then - q else q)
           in if 10 ^ 21 \<le> a then Inr (s @ Number_toString eng (Fin a))
              else Inr (s @ fixed_digits a f))
      | _ \<Rightarrow> Inr (Number_toString eng x))"

text \<open>
  \<open>v.toFixed(f)\<close>: only a Number has a callable \<open>toFixed\<close>. On \<open>undefined\<close> and
  \<open>null\<close> the property read throws; on any other value the property is missing or (an
  own property of a parsed object) not a function, and the call throws.
\<close>

fun call_toFixed :: "engine \<Rightarrow> jsval \<Rightarrow> nat \<Rightarrow> exn + jsstring" where
  "call_toFixed eng (Number x) f = toFixed eng x f"
| "call_toFixed eng Undefined f = Inl (raise eng (ReadOfNullish Undefined (ascii ''toFixed'')))"
| "call_toFixed eng Null f = Inl (raise eng (ReadOfNullish Null (ascii ''toFixed'')))"
| "call_toFixed eng v f = Inl (raise eng (NotAFunction (ascii ''toFixed'')))"

subsection \<open>ToString\<close>

text \<open>
  \<open>ToString\<close> of a value. An array prints its elements joined by commas, \<open>undefined\<close>
  and \<open>null\<close> elements as nothing. A plain object prints as \<open>[object Object]\<close> unless
  it has an own \<open>toString\<close> property, which for a parsed object is never a function: then
  the conversion finds no primitive value and throws.
\<close>

fun ToString :: "engine \<Rightarrow> jsval \<Rightarrow> exn + jsstring"
  and join_elements :: "engine \<Rightarrow> jsval list \<Rightarrow> exn + jsstring" where
  "ToString eng Undefined = Inr (ascii ''undefined'')"
| "ToString eng Null = Inr (ascii ''null'')"
| "ToString eng (Boolean b) = Inr (if b then ascii ''true'' else ascii ''false'')"
| "ToString eng (Number x) = Inr (Number_toString eng x)"
| "ToString eng (String s) = Inr s"
| "ToString eng (Array xs) = join_elements eng xs"
| "ToString eng (Object kvs) =
     (if map_of kvs (ascii ''toString'') \<noteq> None then Inl (raise eng NoPrimitiveValue)
      else Inr (ascii ''[object Object]''))"
| "join_elements eng [] = Inr []"
| "join_elements eng (x # xs) =
     (case (if x = Undefined \<or> x = Null then Inr [] else ToString eng x) of
        Inl e \<Rightarrow> Inl e
      | Inr a \<Rightarrow>
          (if xs = [] then Inr a
           else case join_elements eng xs of
                  Inl e \<Rightarrow> Inl e
                | Inr b \<Rightarrow> Inr (a @ ascii '','' @ b)))"

subsection \<open>String.prototype.trim\<close>

text \<open>
  \<open>trim\<close> removes the WhiteSpace and LineTerminator code points of the language from
  both ends: TAB, LF, VT, FF, CR, SPACE, NBSP, U+1680, U+2000 to U+200A, U+2028, U+2029,
  U+202F, U+205F, U+3000 and U+FEFF.
\<close>

definition white_space :: "16 word \<Rightarrow> bool" where
  "white_space c =
     (c = 0x9 \<or> c = 0xA \<or> c = 0xB \<or> c = 0xC \<or> c = 0xD \<or> c = 0x20 \<or> c = 0xA0 \<or>
      c = 0x1680 \<or> (0x2000 \<le> c \<and> c \<le> 0x200A) \<or> c = 0x2028 \<or> c = 0x2029 \<or>
      c = 0x202F \<or> c = 0x205F \<or> c = 0x3000 \<or> c = 0xFEFF)"

definition trim :: "jsstring \<Rightarrow> jsstring" where
  "trim s = rev (dropWhile white_space (rev (dropWhile white_space s)))"

subsection \<open>atob: the forgiving base64 decoder of the HTML standard\<close>

definition base64_alphabet :: jsstring where
  "base64_alphabet =
     ascii ''ABCDEFGHIJKLMNOPQRSTUVWXYZabcdefghijklmnopqrstuvwxyz0123456789+/''"

definition alphabet_index :: "16 word \<Rightarrow> nat option" where
  "alphabet_index c =
     (if 0x41 \<le> c \<and> c \<le> 0x5A then Some (unat c - 65)
      else if 0x61 \<le> c \<and> c \<le> 0x7A then Some (unat c - 97 + 26)
      else if 0x30 \<le> c \<and> c \<le> 0x39 then Some (unat c - 48 + 52)
      else if c = 0x2B then Some 62
      else if c = 0x2F then Some 63
      else None)"

definition ascii_whitespace :: "16 word \<Rightarrow> bool" where
  "ascii_whitespace c = (c = 0x9 \<or> c = 0xA \<or> c = 0xC \<or> c = 0xD \<or> c = 0x20)"

text \<open>
  When the length is a multiple of four, one or two trailing \<open>=\<close> are removed. (The
  standard counts code points where this model counts code units; the two differ only on a
  string with a character outside the alphabet, which fails to decode either way.)
\<close>

definition strip_padding :: "jsstring \<Rightarrow> jsstring" where
  "strip_padding d =
     (if length d mod 4 = 0 then
        (if 2 \<le> length d \<and> drop (length d - 2) d = [0x3D, 0x3D] then take (length d - 2) d
         else if 1 \<le> length d \<and> drop (length d - 1) d = [0x3D] then take (length d - 1) d
         else d)
      else d)"

text \<open>
  Each character adds six bits to a buffer; 24 bits give three bytes. At the end a buffer
  of 12 bits gives one byte (its last four bits dropped), one of 18 bits two bytes (its
  last two bits dropped).
\<close>

fun sextets_to_bytes :: "nat list \<Rightarrow> byte list" where
  "sextets_to_bytes (a # b # c # d # r) =
     (let n = ((a * 64 + b) * 64 + c) * 64 + d
      in [of_nat (n div 65536), of_nat (n div 256 mod 256), of_nat (n mod 256)]
         @ sextets_to_bytes r)"
| "sextets_to_bytes [a, b, c] =
     (let n = ((a * 64 + b) * 64 + c) div 4
      in [of_nat (n div 256), of_nat (n mod 256)])"
| "sextets_to_bytes [a, b] = [of_nat ((a * 64 + b) div 16)]"
| "sextets_to_bytes r = []"

definition forgiving_base64_decode :: "jsstring \<Rightarrow> byte list option" where
  "forgiving_base64_decode d0 =
     (let d = strip_padding (filter (\<lambda>c. \<not> ascii_whitespace c) d0)
      in if length d mod 4 = 1 then None
         else if \<not> list_all (\<lambda>c. alphabet_index c \<noteq> None) d then None
         else Some (sextets_to_bytes (map (\<lambda>c. the (alphabet_index c)) d)))"

text \<open>
  \<open>atob(v)\<close> converts its argument to a string, decodes it and returns the bytes as a
  string of code units below 256; data that does not decode throws an
  InvalidCharacterError.
\<close>

definition and_then :: "exn + 'a \<Rightarrow> ('a \<Rightarrow> exn + 'b) \<Rightarrow> exn + 'b" where
  "and_then r f = (case r of Inl e \<Rightarrow> Inl e | Inr x \<Rightarrow> f x)"

definition atob :: "engine \<Rightarrow> jsval \<Rightarrow> exn + jsstring" where
  "atob eng v =
     and_then (ToString eng v) (\<lambda>d.
       case forgiving_base64_decode d of
         None \<Rightarrow> Inl (raise eng BadBase64)
       | Some bytes \<Rightarrow> Inr (map ucast bytes))"

text \<open>
  Modelled from the spec: the encoder belongs to the analysis service, whose code is not
  among the sources; the spec names the encoding as standard base64, that is RFC 4648,
  section 4. Three bytes give four six-bit groups; a last group of one or two bytes is
  filled with zero bits.
\<close>

fun bytes_to_sextets :: "byte list \<Rightarrow> nat list" where
  "bytes_to_sextets (a # b # c # r) =
     [unat a div 4, unat a mod 4 * 16 + unat b div 16, unat b mod 16 * 4 + unat c div 64,
      unat c mod 64] @ bytes_to_sextets r"
| "bytes_to_sextets [a, b] =
     [unat a div 4, unat a mod 4 * 16 + unat b div 16, unat b mod 16 * 4]"
| "bytes_to_sextets [a] = [unat a div 4, unat a mod 4 * 16]"
| "bytes_to_sextets [] = []"

text \<open>
  Modelled from the spec: each six-bit group is written as the character of the base64
  alphabet at that index.
\<close>

definition encoded_body :: "byte list \<Rightarrow> jsstring" where
  "encoded_body bs = map (\<lambda>i. base64_alphabet ! i) (bytes_to_sextets bs)"

text \<open>
  Modelled from the spec: the characters are padded with \<open>=\<close> to a multiple of four.
\<close>

definition base64_encode :: "byte list \<Rightarrow> jsstring" where
  "base64_encode bs = encoded_body bs @ replicate ((3 - length bs mod 3) mod 3) 0x3D"

section \<open>The page and the two handlers of script.js\<close>

text \<open>
  The page holds the elements the script looks up by id; all of them exist (the script's
  top-level \<open>addEventListener\<close> calls need them). An element is seen through what the
  script touches: the \<open>hidden\<close> class and the text content. Besides the state, the page
  keeps the sequence of the script's actions, oldest first.
\<close>

datatype elem =
    Loading | Results | ErrorBox | ErrorP
  | ResultAddress | ResultCoords | ElevMin | ElevMax | ElevAvg | ElevChange
  | SlopeClass | Buildability | AccessScore

datatype event =
    PreventDefault
  | ClassRemoved elem
  | ClassAdded elem
  | TextSet elem jsstring
  | Request jsstring jsstring
  | ConsoleError exn
  | Stored jsval
  | Scrolled elem
  | ObjectURLCreated "byte list" jsstring
  | AnchorAppended
  | AnchorClicked jsstring "byte list"
  | ObjectURLRevoked
  | AnchorRemoved

record page =
  currentReportPDF :: jsval
  addressInput :: jsstring
  hidden :: "elem \<Rightarrow> bool"
  textContent :: "elem \<Rightarrow> jsstring"
  events :: "event list"

definition API_URL :: jsstring where
  "API_URL = ascii ''https://your-backend-url.railway.app''"

definition log_event :: "event \<Rightarrow> page \<Rightarrow> page" where
  "log_event ev s = s\<lparr>events := events s @ [ev]\<rparr>"

definition classList_add :: "elem \<Rightarrow> page \<Rightarrow> page" where
  "classList_add el s = log_event (ClassAdded el) (s\<lparr>hidden := (hidden s)(el := True)\<rparr>)"

definition classList_remove :: "elem \<Rightarrow> page \<Rightarrow> page" where
  "classList_remove el s = log_event (ClassRemoved el) (s\<lparr>hidden := (hidden s)(el := False)\<rparr>)"

definition set_text :: "elem \<Rightarrow> jsstring \<Rightarrow> page \<Rightarrow> page" where
  "set_text el t s = log_event (TextSet el t) (s\<lparr>textContent := (textContent s)(el := t)\<rparr>)"

text \<open>
  \<open>el.textContent = v\<close>: the attribute is a nullable string, so \<open>undefined\<close> and
  \<open>null\<close> empty the element and any other value is converted by \<open>ToString\<close>.
\<close>

definition assign_textContent :: "engine \<Rightarrow> elem \<Rightarrow> jsval \<Rightarrow> page \<Rightarrow> exn + page" where
  "assign_textContent eng el v s =
     (if v = Undefined \<or> v = Null then Inr (set_text el [] s)
      else and_then (ToString eng v) (\<lambda>t. Inr (set_text el t s)))"

definition showError :: "jsstring \<Rightarrow> page \<Rightarrow> page" where
  "showError msg s = classList_remove ErrorBox (set_text ErrorP msg s)"

text \<open>
  A function body as the list of its statements: each runs on the page the previous one
  left; a statement that throws ends the run, and the page keeps what was done before.
\<close>

fun run :: "(page \<Rightarrow> exn + page) list \<Rightarrow> page \<Rightarrow> page \<times> exn option" where
  "run [] s = (s, None)"
| "run (stmt # rest) s = (case stmt s of Inl e \<Rightarrow> (s, Some e) | Inr s' \<Rightarrow> run rest s')"

definition fixed_field :: "engine \<Rightarrow> jsval \<Rightarrow> jsstring \<Rightarrow> nat \<Rightarrow> exn + jsstring" where
  "fixed_field eng obj p f = and_then (get_prop eng obj p) (\<lambda>v. call_toFixed eng v f)"

definition displayResults :: "engine \<Rightarrow> jsval \<Rightarrow> page \<Rightarrow> page \<times> exn option" where
  "displayResults eng data =
     run
      [\<lambda>s. and_then (get_prop eng data (ascii ''report_pdf''))
              (\<lambda>v. Inr (log_event (Stored v) (s\<lparr>currentReportPDF := v\<rparr>))),
       \<lambda>s. and_then (get_prop eng data (ascii ''address''))
              (\<lambda>v. assign_textContent eng ResultAddress v s),
       \<lambda>s. and_then (fixed_field eng data (ascii ''latitude'') 6) (\<lambda>lat.
            and_then (fixed_field eng data (ascii ''longitude'') 6) (\<lambda>lon.
              Inr (set_text ResultCoords (ascii ''Coordinates: '' @ lat @ ascii '', '' @ lon) s))),
       \<lambda>s. and_then (fixed_field eng data (ascii ''elevation_min'') 1)
              (\<lambda>t. Inr (set_text ElevMin (t @ ascii ''m'') s)),
       \<lambda>s. and_then (fixed_field eng data (ascii ''elevation_max'') 1)
              (\<lambda>t. Inr (set_text ElevMax (t @ ascii ''m'') s)),
       \<lambda>s. and_then (fixed_field eng data (ascii ''elevation_avg'') 1)
              (\<lambda>t. Inr (set_text ElevAvg (t @ ascii ''m'') s)),
       \<lambda>s. and_then (get_prop eng data (ascii ''slope_analysis'')) (\<lambda>sa.
            and_then (fixed_field eng sa (ascii ''elevation_change_meters'') 1)
              (\<lambda>t. Inr (set_text ElevChange (t @ ascii ''m'') s))),
       \<lambda>s. and_then (get_prop eng data (ascii ''slope_analysis'')) (\<lambda>sa.
            and_then (get_prop eng sa (ascii ''slope_classification''))
              (\<lambda>v. assign_textContent eng SlopeClass v s)),
       \<lambda>s. and_then (get_prop eng data (ascii ''slope_analysis'')) (\<lambda>sa.
            and_then (get_prop eng sa (ascii ''buildability_assessment''))
              (\<lambda>v. assign_textContent eng Buildability v s)),
       \<lambda>s. and_then (get_prop eng data (ascii ''access_score''))
              (\<lambda>v. assign_textContent eng AccessScore v s),
       \<lambda>s. Inr (classList_remove Results s),
       \<lambda>s. Inr (log_event (Scrolled Results) s)]"

text \<open>
  What the awaited calls of the submit handler can deliver: \<open>fetch\<close> rejects, or gives
  a response with its \<open>ok\<close> flag, and \<open>response.json()\<close> gives the parsed body or
  rejects (an empty body or one that is not JSON: a SyntaxError with the parser's message).
  The handler is run to its end on that outcome, with no other handler running between
  its steps.
\<close>

datatype body = Json jsval | Unreadable exn

datatype fetch_outcome = Rejected exn | Response bool body

text \<open>\<open>new Error(v)\<close>: the message is \<open>ToString v\<close>, and empty when \<open>v\<close> is undefined.\<close>

definition new_Error :: "engine \<Rightarrow> jsval \<Rightarrow> exn + exn" where
  "new_Error eng v =
     (if v = Undefined then Inr (Exn Error [])
      else and_then (ToString eng v) (\<lambda>m. Inr (Exn Error m)))"

text \<open>The \<open>try\<close> block of the submit handler (lines 22 to 36).\<close>

definition try_block :: "engine \<Rightarrow> fetch_outcome \<Rightarrow> jsstring \<Rightarrow> page \<Rightarrow> page \<times> exn option" where
  "try_block eng net address s =
     (let s1 = log_event (Request (API_URL @ ascii ''/analyze'') address) s
      in case net of
           Rejected e \<Rightarrow> (s1, Some e)
         | Response ok b \<Rightarrow>
             (if \<not> ok then
                (case b of
                   Unreadable e \<Rightarrow> (s1, Some e)
                 | Json errorData \<Rightarrow>
                     (case and_then (get_prop eng errorData (ascii ''detail''))
                             (\<lambda>d. new_Error eng
                                    (if truthy d then d else String (ascii ''Analysis failed''))) of
                        Inl e \<Rightarrow> (s1, Some e)
                      | Inr e \<Rightarrow> (s1, Some e)))
              else
                (case b of
                   Unreadable e \<Rightarrow> (s1, Some e)
                 | Json data \<Rightarrow> displayResults eng data s1)))"

text \<open>
  The submit handler (lines 6 to 44). The second component of the result is the error
  that leaves the handler uncaught, if any.
\<close>

definition submit :: "engine \<Rightarrow> fetch_outcome \<Rightarrow> page \<Rightarrow> page \<times> exn option" where
  "submit eng net s0 =
     (let s = log_event PreventDefault s0;
          address = trim (addressInput s)
      in if \<not> truthy (String address) then
           (showError (ascii ''Please enter an address'') s, None)
         else
           (let s1 = classList_add ErrorBox (classList_add Results (classList_remove Loading s));
                (s2, thrown) = try_block eng net address s1;
                s3 = (case thrown of
                        None \<Rightarrow> s2
                      | Some error \<Rightarrow>
                          showError
                            (if truthy (String (message error)) then message error
                             else ascii ''Failed to analyze site. Please try again.'')
                            (log_event (ConsoleError error) s2))
            in (classList_add Loading s3, None)))"

text \<open>
  The decode step of the download handler (lines 87 to 92): \<open>atob\<close>, the loop over
  \<open>charCodeAt\<close> and the conversion of the numbers to a \<open>Uint8Array\<close>, which keeps
  each number modulo 256.
\<close>

definition charCodeAt :: "jsstring \<Rightarrow> nat \<Rightarrow> nat" where
  "charCodeAt s i = unat (s ! i)"

definition ToUint8 :: "nat \<Rightarrow> byte" where
  "ToUint8 n = of_nat (n mod 256)"

definition decode_report :: "engine \<Rightarrow> jsval \<Rightarrow> exn + byte list" where
  "decode_report eng pdf =
     and_then (atob eng pdf) (\<lambda>byteCharacters.
       let byteNumbers = map (charCodeAt byteCharacters) [0..<length byteCharacters]
       in Inr (map ToUint8 byteNumbers))"

text \<open>The click handler of the download button (lines 80 to 103).\<close>

definition download :: "engine \<Rightarrow> page \<Rightarrow> page \<times> exn option" where
  "download eng s =
     (if \<not> truthy (currentReportPDF s) then
        (showError (ascii ''No report available to download'') s, None)
      else
        (case decode_report eng (currentReportPDF s) of
           Inl e \<Rightarrow> (s, Some e)
         | Inr byteArray \<Rightarrow>
             (s\<lparr>events := events s @
                   [ObjectURLCreated byteArray (ascii ''application/pdf''),
                    AnchorAppended,
                    AnchorClicked (ascii ''site-analysis-report.pdf'') byteArray,
                    ObjectURLRevoked,
                    AnchorRemoved]\<rparr>, None)))"

text \<open>The page as it is loaded: no report is held (line 4).\<close>

definition initial_page :: "jsstring \<Rightarrow> (elem \<Rightarrow> bool) \<Rightarrow> (elem \<Rightarrow> jsstring) \<Rightarrow> page" where
  "initial_page input hid txt =
     \<lparr>currentReportPDF = Null, addressInput = input, hidden = hid, textContent = txt,
      events = []\<rparr>"

section \<open>Notions used to state the properties\<close>

text \<open>The own property \<open>p\<close> of a parsed object, \<open>Undefined\<close> when there is none.\<close>

fun field :: "jsval \<Rightarrow> jsstring \<Rightarrow> jsval" where
  "field (Object kvs) p = (case map_of kvs p of None \<Rightarrow> Undefined | Some v \<Rightarrow> v)"
| "field v p = Undefined"

fun nullish :: "jsval \<Rightarrow> bool" where
  "nullish Undefined = True"
| "nullish Null = True"
| "nullish v = False"

definition is_digit :: "16 word \<Rightarrow> bool" where
  "is_digit c = (0x30 \<le> c \<and> c \<le> 0x39)"

text \<open>
  A text with exactly \<open>f\<close> decimal places: an optional minus sign, one or more digits, a
  point, and \<open>f\<close> digits.
\<close>

definition decimal_places :: "nat \<Rightarrow> jsstring \<Rightarrow> bool" where
  "decimal_places f t =
     (let u = (if t \<noteq> [] \<and> hd t = 0x2D then tl t else t)
      in Suc f < length u \<and>
         list_all is_digit (take (length u - Suc f) u) \<and>
         u ! (length u - Suc f) = 0x2E \<and>
         list_all is_digit (drop (length u - f) u))"

text \<open>The result of \<open>toFixed\<close> on a finite number of magnitude below \<open>10^21\<close>.\<close>

definition fixed_text :: "rat \<Rightarrow> nat \<Rightarrow> jsstring" where
  "fixed_text x f = (if x < 0 then ascii ''-'' @ fixed_digits (- x) f else fixed_digits x f)"

text \<open>The number that a sequence of decimal digits denotes.\<close>

definition digits_value :: "jsstring \<Rightarrow> nat" where
  "digits_value ds = foldl (\<lambda>a c. 10 * a + (unat c - 48)) 0 ds"

text \<open>The message the submit handler shows for a caught error (line 40).\<close>

definition shown_message :: "exn \<Rightarrow> jsstring" where
  "shown_message e =
     (if message e \<noteq> [] then message e else ascii ''Failed to analyze site. Please try again.'')"

text \<open>
  The result that a response delivers to \<open>displayResults\<close>: the parsed body of a
  successful response, unless it is \<open>null\<close> or \<open>undefined\<close>, on which the first
  statement of \<open>displayResults\<close> throws before it assigns anything.
\<close>

fun delivered_result :: "fetch_outcome \<Rightarrow> jsval option" where
  "delivered_result (Response ok (Json data)) = (if ok \<and> \<not> nullish data then Some data else None)"
| "delivered_result net = None"

subsection \<open>An engine, a page and responses for the examples\<close>

text \<open>
  The examples run on an engine with error messages in the style of V8. They print whole
  numbers below \<open>10^21\<close> only, whose text is their decimal digits on every engine.
\<close>

fun sample_fault_text :: "fault \<Rightarrow> jsstring" where
  "sample_fault_text (ReadOfNullish v p) =
     ascii ''Cannot read properties of '' @ (if v = Null then ascii ''null'' else ascii ''undefined'')
     @ ascii '' (reading '' @ [0x27] @ p @ [0x27] @ ascii '')''"
| "sample_fault_text (NotAFunction p) = p @ ascii '' is not a function''"
| "sample_fault_text NoPrimitiveValue = ascii ''Cannot convert object to primitive value''"
| "sample_fault_text FractionDigitsRange =
     ascii ''toFixed() digits argument must be between 0 and 100''"
| "sample_fault_text BadBase64 = ascii ''The string to be decoded is not correctly encoded.''"

definition sample_engine :: engine where
  "sample_engine = \<lparr>number_text = (\<lambda>q. digits (nat \<lfloor>q\<rfloor>)), fault_text = sample_fault_text\<rparr>"

text \<open>A freshly loaded page with the indicator, the results and the error box hidden.\<close>

definition fresh_page :: "jsstring \<Rightarrow> page" where
  "fresh_page input =
     initial_page input (\<lambda>el. el = Loading \<or> el = Results \<or> el = ErrorBox) (\<lambda>el. [])"

text \<open>
  The address and a result in the shape of the spec's end-to-end scenario, with numbers
  that binary64 holds exactly; \<open>sample_fields\<close> is the result without its latitude.
\<close>

definition sample_address :: jsstring where
  "sample_address = ascii ''350 S 400 E, Salt Lake City, UT''"

definition sample_page :: page where
  "sample_page = fresh_page sample_address"

definition sample_slope :: jsval where
  "sample_slope =
     Object [(ascii ''elevation_change_meters'', Number (Fin (61 / 2))),
             (ascii ''slope_classification'', String (ascii ''Moderate'')),
             (ascii ''buildability_assessment'', String (ascii ''Buildable with grading''))]"

definition sample_fields :: "(jsstring \<times> jsval) list" where
  "sample_fields =
     [(ascii ''address'', String sample_address),
      (ascii ''longitude'', Number (Fin (- 895 / 8))),
      (ascii ''elevation_min'', Number (Fin 1280)),
      (ascii ''elevation_max'', Number (Fin (2621 / 2))),
      (ascii ''elevation_avg'', Number (Fin (5181 / 4))),
      (ascii ''slope_analysis'', sample_slope),
      (ascii ''access_score'', Number (Fin 7)),
      (ascii ''report_pdf'', String (ascii ''JVBERi0=''))]"

definition sample_result :: jsval where
  "sample_result = Object ((ascii ''latitude'', Number (Fin (163 / 4))) # sample_fields)"

definition fetch_failed :: exn where
  "fetch_failed = Exn TypeError (ascii ''Failed to fetch'')"

text \<open>The sample page after an earlier analysis has stored the report \<open>T0xE\<close>.\<close>

definition page_with_report :: page where
  "page_with_report = sample_page\<lparr>currentReportPDF := String (ascii ''T0xE'')\<rparr>"

section \<open>Basic facts\<close>

declare digits.simps [simp del]

subsection \<open>Strings, the page, statement results\<close>

lemma unat_of_char16: "unat (of_char c :: 16 word) = of_char c"
proof -
  have "(of_char c :: nat) < 256" by simp
  then have "(of_char c :: nat) < 2 ^ 16" by (rule less_trans) simp
  then have m: "(of_char c :: nat) mod 2 ^ 16 = of_char c" by (rule mod_less)
  have "unat (of_char c :: 16 word) = unat (of_nat (of_char c) :: 16 word)"
    by (simp only: of_nat_of_char)
  also have "\<dots> = of_char c mod 2 ^ 16" by (simp only: unat_of_nat) simp
  finally show ?thesis using m by simp
qed

lemma ascii_eq_iff [simp]: "ascii a = ascii b \<longleftrightarrow> a = b"
proof -
  have "inj (of_char :: char \<Rightarrow> 16 word)"
  proof (rule injI)
    fix a b :: char
    assume h: "(of_char a :: 16 word) = of_char b"
    then have "unat (of_char a :: 16 word) = unat (of_char b :: 16 word)" by simp
    then show "a = b" by (simp add: unat_of_char16)
  qed
  then show ?thesis unfolding ascii_def by (rule inj_map_eq_map)
qed

lemma ascii_Nil [simp]: "ascii [] = []" by (simp add: ascii_def)

lemma ascii_eq_Nil [simp]: "ascii a = [] \<longleftrightarrow> a = []" "[] = ascii a \<longleftrightarrow> a = []"
  by (auto simp: ascii_def)

lemma events_log_event [simp]: "events (log_event ev s) = events s @ [ev]"
  and hidden_log_event [simp]: "hidden (log_event ev s) = hidden s"
  and textContent_log_event [simp]: "textContent (log_event ev s) = textContent s"
  and currentReportPDF_log_event [simp]: "currentReportPDF (log_event ev s) = currentReportPDF s"
  and addressInput_log_event [simp]: "addressInput (log_event ev s) = addressInput s"
  by (simp_all add: log_event_def)

lemma classList_add_simps [simp]:
  "events (classList_add el s) = events s @ [ClassAdded el]"
  "hidden (classList_add el s) = (hidden s)(el := True)"
  "textContent (classList_add el s) = textContent s"
  "currentReportPDF (classList_add el s) = currentReportPDF s"
  "addressInput (classList_add el s) = addressInput s"
  by (simp_all add: classList_add_def)

lemma classList_remove_simps [simp]:
  "events (classList_remove el s) = events s @ [ClassRemoved el]"
  "hidden (classList_remove el s) = (hidden s)(el := False)"
  "textContent (classList_remove el s) = textContent s"
  "currentReportPDF (classList_remove el s) = currentReportPDF s"
  "addressInput (classList_remove el s) = addressInput s"
  by (simp_all add: classList_remove_def)

lemma set_text_simps [simp]:
  "events (set_text el t s) = events s @ [TextSet el t]"
  "hidden (set_text el t s) = hidden s"
  "textContent (set_text el t s) = (textContent s)(el := t)"
  "currentReportPDF (set_text el t s) = currentReportPDF s"
  "addressInput (set_text el t s) = addressInput s"
  by (simp_all add: set_text_def)

lemma showError_simps [simp]:
  "events (showError msg s) = events s @ [TextSet ErrorP msg, ClassRemoved ErrorBox]"
  "hidden (showError msg s) = (hidden s)(ErrorBox := False)"
  "textContent (showError msg s) = (textContent s)(ErrorP := msg)"
  "currentReportPDF (showError msg s) = currentReportPDF s"
  "addressInput (showError msg s) = addressInput s"
  by (simp_all add: showError_def)

lemma sample_page_simps [simp]:
  "currentReportPDF sample_page = Null"
  "addressInput sample_page = sample_address"
  "hidden sample_page = (\<lambda>el. el = Loading \<or> el = Results \<or> el = ErrorBox)"
  "textContent sample_page = (\<lambda>el. [])"
  "events sample_page = []"
  by (simp_all add: sample_page_def fresh_page_def initial_page_def)

lemma fresh_page_simps [simp]:
  "currentReportPDF (fresh_page i) = Null"
  "addressInput (fresh_page i) = i"
  "hidden (fresh_page i) = (\<lambda>el. el = Loading \<or> el = Results \<or> el = ErrorBox)"
  "textContent (fresh_page i) = (\<lambda>el. [])"
  "events (fresh_page i) = []"
  by (simp_all add: fresh_page_def initial_page_def)

lemma page_with_report_simps [simp]:
  "currentReportPDF page_with_report = String (ascii ''T0xE'')"
  "addressInput page_with_report = sample_address"
  "hidden page_with_report = (\<lambda>el. el = Loading \<or> el = Results \<or> el = ErrorBox)"
  "textContent page_with_report = (\<lambda>el. [])"
  "events page_with_report = []"
  by (simp_all add: page_with_report_def)

lemma and_then_simps [simp]:
  "and_then (Inl e) f = Inl e"
  "and_then (Inr x) f = f x"
  by (simp_all add: and_then_def)

lemma and_then_Inr_iff: "and_then r f = Inr y \<longleftrightarrow> (\<exists>x. r = Inr x \<and> f x = Inr y)"
  by (cases r) simp_all

subsection \<open>Blank input\<close>

lemma dropWhile_all_iff: "(\<forall>x\<in>set (dropWhile P xs). P x) \<longleftrightarrow> dropWhile P xs = []"
proof
  assume h: "\<forall>x\<in>set (dropWhile P xs). P x"
  show "dropWhile P xs = []"
  proof (rule ccontr)
    assume ne: "dropWhile P xs \<noteq> []"
    then have "\<not> P (hd (dropWhile P xs))" by (rule hd_dropWhile)
    moreover from ne have "hd (dropWhile P xs) \<in> set (dropWhile P xs)" by simp
    ultimately show False using h by blast
  qed
next
  assume e: "dropWhile P xs = []"
  show "\<forall>x\<in>set (dropWhile P xs). P x" unfolding e by simp
qed

lemma trim_empty_iff: "trim s = [] \<longleftrightarrow> list_all white_space s"
proof -
  have "trim s = [] \<longleftrightarrow> (\<forall>x\<in>set (dropWhile white_space s). white_space x)"
    by (simp add: trim_def)
  also have "\<dots> \<longleftrightarrow> dropWhile white_space s = []" by (rule dropWhile_all_iff)
  also have "\<dots> \<longleftrightarrow> list_all white_space s"
    by (simp add: list_all_iff)
  finally show ?thesis .
qed

lemma not_blank_sample: "\<not> list_all white_space sample_address"
  by (simp add: sample_address_def ascii_def white_space_def)

lemma blank_sample: "list_all white_space (ascii ''  '')"
  by (simp add: ascii_def white_space_def)

subsection \<open>The text of toFixed\<close>

lemma unat_digit: "d < 10 \<Longrightarrow> unat (of_nat (48 + d) :: 16 word) = 48 + d"
  by (simp only: unat_of_nat) simp

lemma is_digit_of_nat: "d < 10 \<Longrightarrow> is_digit (of_nat (48 + d))"
proof -
  assume d: "d < 10"
  have "unat (0x30 :: 16 word) \<le> unat (of_nat (48 + d) :: 16 word)"
    by (simp only: unat_digit [OF d]) simp
  moreover have "unat (of_nat (48 + d) :: 16 word) \<le> unat (0x39 :: 16 word)"
    using d by (simp only: unat_digit [OF d]) simp
  ultimately show ?thesis by (simp only: is_digit_def word_le_nat_alt)
qed

lemma digits_nonempty: "digits n \<noteq> []"
  by (subst digits.simps) simp

lemma digits_all_digit: "list_all is_digit (digits n)"
proof (induction n rule: digits.induct)
  case (1 n)
  show ?case
  proof (cases "n < 10")
    case True
    then show ?thesis using is_digit_of_nat [of n] by (subst digits.simps) simp
  next
    case False
    then have "list_all is_digit (digits (n div 10))" using 1 by simp
    moreover have "is_digit (of_nat (48 + n mod 10))" by (rule is_digit_of_nat) simp
    ultimately show ?thesis using False by (subst digits.simps) simp
  qed
qed

lemma is_digit_not_minus: "is_digit c \<Longrightarrow> c \<noteq> 0x2D"
  by (auto simp: is_digit_def)

lemma is_digit_zero: "is_digit 48"
  by (simp add: is_digit_def)

lemma decimal_places_split:
  assumes "a \<noteq> []" "list_all is_digit a" "list_all is_digit b" "length b = f"
  shows "decimal_places f (a @ [0x2E] @ b)"
proof -
  from assms(1,2) have "hd (a @ [0x2E] @ b) \<noteq> 0x2D"
    by (cases a) (auto dest: is_digit_not_minus)
  then have u: "(if a @ [0x2E] @ b \<noteq> [] \<and> hd (a @ [0x2E] @ b) = 0x2D then tl (a @ [0x2E] @ b)
                 else a @ [0x2E] @ b) = a @ [0x2E] @ b" by simp
  have len: "length (a @ [0x2E] @ b) - Suc f = length a" using assms(4) by simp
  have len2: "length (a @ [0x2E] @ b) - f = Suc (length a)" using assms(4) by simp
  show ?thesis
    unfolding decimal_places_def Let_def u len len2
    using assms by (simp add: nth_append)
qed

lemma decimal_places_split_minus:
  assumes "a \<noteq> []" "list_all is_digit a" "list_all is_digit b" "length b = f"
  shows "decimal_places f (0x2D # a @ [0x2E] @ b)"
proof -
  have len: "length (a @ [0x2E] @ b) - Suc f = length a" using assms(4) by simp
  have len2: "length (a @ [0x2E] @ b) - f = Suc (length a)" using assms(4) by simp
  have "decimal_places f (0x2D # a @ [0x2E] @ b) =
        (let u = a @ [0x2E] @ b
         in Suc f < length u \<and> list_all is_digit (take (length u - Suc f) u) \<and>
            u ! (length u - Suc f) = 0x2E \<and> list_all is_digit (drop (length u - f) u))"
    by (simp add: decimal_places_def)
  also have "\<dots>" unfolding Let_def len len2 using assms by (simp add: nth_append)
  finally show ?thesis .
qed

lemma fixed_digits_shape:
  assumes "0 < f"
  shows "\<exists>a b. fixed_digits x f = a @ [0x2E] @ b \<and> a \<noteq> [] \<and> list_all is_digit a \<and>
               list_all is_digit b \<and> length b = f"
proof -
  define m where "m = digits (nat \<lfloor>x * 10 ^ f + 1 / 2\<rfloor>)"
  define k where "k = length m"
  define m' where "m' = (if k \<le> f then replicate (f + 1 - k) 48 @ m else m)"
  define k' where "k' = (if k \<le> f then f + 1 else k)"
  have m_digits: "list_all is_digit m" and m_ne: "m \<noteq> []"
    by (simp_all add: m_def digits_all_digit digits_nonempty)
  have len: "length m' = k'" by (simp add: m'_def k'_def k_def)
  have big: "f < k'" by (simp add: k'_def)
  have all: "list_all is_digit m'"
    using m_digits by (simp add: m'_def is_digit_zero list_all_iff)
  have eq: "fixed_digits x f = take (k' - f) m' @ [0x2E] @ drop (k' - f) m'"
    using assms by (simp add: fixed_digits_def Let_def m_def k_def m'_def k'_def ascii_def)
  moreover have "take (k' - f) m' \<noteq> []" using big len m_ne by auto
  moreover have "list_all is_digit (take (k' - f) m')"
    using all by (auto simp: list_all_iff dest: in_set_takeD)
  moreover have "list_all is_digit (drop (k' - f) m')"
    using all by (auto simp: list_all_iff dest: in_set_dropD)
  moreover have "length (drop (k' - f) m') = f" using big len by simp
  ultimately show ?thesis by blast
qed

lemma decimal_places_fixed_text:
  assumes "0 < f"
  shows "decimal_places f (fixed_text x f)"
proof -
  obtain a b where s: "fixed_digits \<bar>x\<bar> f = a @ [0x2E] @ b" "a \<noteq> []" "list_all is_digit a"
      "list_all is_digit b" "length b = f"
    using fixed_digits_shape [OF assms] by blast
  show ?thesis
  proof (cases "x < 0")
    case True
    then have "fixed_text x f = 0x2D # a @ [0x2E] @ b"
      using s(1) by (simp add: fixed_text_def ascii_def abs_if)
    then show ?thesis using decimal_places_split_minus [OF s(2-5)] by simp
  next
    case False
    then have "fixed_text x f = a @ [0x2E] @ b"
      using s(1) by (simp add: fixed_text_def abs_if)
    then show ?thesis using decimal_places_split [OF s(2-5)] by simp
  qed
qed

lemma toFixed_small:
  "\<bar>q\<bar> < 10 ^ 21 \<Longrightarrow> f \<le> 100 \<Longrightarrow> toFixed eng (Fin q) f = Inr (fixed_text q f)"
  by (auto simp: fixed_text_def Let_def)

lemma toFixed_beyond: "toFixed eng (Fin (10 ^ 21)) 6 = Inr (number_text eng (10 ^ 21))"
  by simp

lemma toFixed_PosInf: "toFixed eng PosInf 6 = Inr (ascii ''Infinity'')"
  by simp

lemma call_toFixed_not_number:
  assumes "\<forall>x. v \<noteq> Number x"
  shows "\<exists>e. call_toFixed eng v f = Inl e"
  using assms by (cases v) auto

lemma floor_rat_numeral [simp]:
  "\<lfloor>(numeral a / numeral b :: rat)\<rfloor> = numeral a div numeral b"
  using floor_divide_of_int_eq [of "numeral a" "numeral b", where ?'a = rat] by simp

lemma floor_rat_one_numeral [simp]:
  "\<lfloor>(1 / numeral b :: rat)\<rfloor> = 1 div numeral b"
  using floor_divide_of_int_eq [of 1 "numeral b", where ?'a = rat] by simp

lemma digits_small: "n < 10 \<Longrightarrow> digits n = [of_nat (48 + n)]"
  by (subst digits.simps) simp

lemma digits_large: "\<not> n < 10 \<Longrightarrow> digits n = digits (n div 10) @ [of_nat (48 + n mod 10)]"
  by (subst digits.simps) simp

lemmas fixed_eval = fixed_text_def fixed_digits_def Let_def digits_small digits_large ascii_def

lemma fixed_examples:
  "fixed_text (163 / 4) 6 = ascii ''40.750000''"
  "fixed_text (- (895 / 8)) 6 = ascii ''-111.875000''"
  "fixed_text 1280 (Suc 0) = ascii ''1280.0''"
  "fixed_text (2621 / 2) (Suc 0) = ascii ''1310.5''"
  "fixed_text (5181 / 4) (Suc 0) = ascii ''1295.3''"
  "fixed_text (61 / 2) (Suc 0) = ascii ''30.5''"
  "fixed_text 0 1 = ascii ''0.0''"
  "fixed_text (- 1 / 1024) 1 = ascii ''-0.0''"
  by (simp_all add: fixed_eval)

text \<open>
  The digits that \<open>toFixed\<close> prints denote the multiple of \<open>10^-f\<close> nearest to the
  magnitude of the number, and the minus sign is printed for the negative numbers.
\<close>

lemma digits_value_snoc: "digits_value (ds @ [c]) = 10 * digits_value ds + (unat c - 48)"
  by (simp add: digits_value_def)

lemma digits_value_digits: "digits_value (digits n) = n"
proof (induction n rule: digits.induct)
  case (1 n)
  show ?case
  proof (cases "n < 10")
    case True
    then show ?thesis
      using unat_digit [of n] by (simp add: digits_small digits_value_def)
  next
    case False
    have "n mod 10 < 10" by simp
    then have "unat (of_nat (48 + n mod 10) :: 16 word) = 48 + n mod 10" by (rule unat_digit)
    then show ?thesis
      using False 1 by (simp only: digits_large [OF False] digits_value_snoc) simp
  qed
qed

lemma digits_value_zeros: "digits_value (replicate k 48 @ ds) = digits_value ds"
proof -
  have "foldl (\<lambda>a c. 10 * a + (unat c - 48)) 0 (replicate k (48 :: 16 word)) = 0"
    by (induction k) simp_all
  then show ?thesis by (simp add: digits_value_def)
qed

lemma is_digit_not_point: "is_digit c \<Longrightarrow> c \<noteq> 0x2E"
  by (auto simp: is_digit_def)

lemma filter_digits_id: "list_all is_digit ds \<Longrightarrow> filter is_digit ds = ds"
  by (simp add: list_all_iff)

lemma fixed_digits_value:
  assumes "0 < f"
  shows "digits_value (filter is_digit (fixed_digits x f)) = nat \<lfloor>x * 10 ^ f + 1 / 2\<rfloor>"
proof -
  define m where "m = digits (nat \<lfloor>x * 10 ^ f + 1 / 2\<rfloor>)"
  define m' where "m' = (if length m \<le> f then replicate (f + 1 - length m) 48 @ m else m)"
  define k' where "k' = (if length m \<le> f then f + 1 else length m)"
  have all: "list_all is_digit m'"
    using digits_all_digit [of "nat \<lfloor>x * 10 ^ f + 1 / 2\<rfloor>"]
    by (simp add: m'_def m_def is_digit_zero list_all_iff)
  have v: "digits_value m' = nat \<lfloor>x * 10 ^ f + 1 / 2\<rfloor>"
    by (simp add: m'_def digits_value_zeros) (simp add: m_def digits_value_digits)
  have eq: "fixed_digits x f = take (k' - f) m' @ [0x2E] @ drop (k' - f) m'"
    using assms by (simp add: fixed_digits_def Let_def m_def m'_def k'_def ascii_def)
  have "\<not> is_digit 0x2E" by (simp add: is_digit_def)
  then have "filter is_digit (fixed_digits x f)
      = filter is_digit (take (k' - f) m') @ filter is_digit (drop (k' - f) m')"
    by (simp add: eq)
  also have "\<dots> = filter is_digit (take (k' - f) m' @ drop (k' - f) m')"
    by (simp only: filter_append)
  also have "\<dots> = filter is_digit m'" by (simp only: append_take_drop_id)
  also have "\<dots> = m'" using all by (rule filter_digits_id)
  finally show ?thesis using v by simp
qed

lemma fixed_text_value:
  assumes "0 < f"
  shows "\<bar>of_nat (digits_value (filter is_digit (fixed_text x f))) / 10 ^ f - \<bar>x\<bar>\<bar> \<le> 1 / (2 * 10 ^ f)"
    and "x < 0 \<longleftrightarrow> hd (fixed_text x f) = 0x2D"
proof -
  have nd: "\<not> is_digit 0x2D" by (simp add: is_digit_def)
  have f: "filter is_digit (fixed_text x f) = filter is_digit (fixed_digits \<bar>x\<bar> f)"
    using nd by (simp add: fixed_text_def ascii_def abs_if)
  define n where "n = nat \<lfloor>\<bar>x\<bar> * 10 ^ f + 1 / 2\<rfloor>"
  have nn: "0 \<le> \<lfloor>\<bar>x\<bar> * 10 ^ f + 1 / 2\<rfloor>" by simp
  have lo: "of_nat n \<le> \<bar>x\<bar> * 10 ^ f + 1 / 2"
    using nn of_int_floor_le [of "\<bar>x\<bar> * 10 ^ f + 1 / 2"] by (simp add: n_def)
  have hi: "\<bar>x\<bar> * 10 ^ f + 1 / 2 < of_nat n + 1"
    using nn floor_correct [of "\<bar>x\<bar> * 10 ^ f + 1 / 2"] by (simp add: n_def)
  have "\<bar>of_nat n - \<bar>x\<bar> * 10 ^ f\<bar> \<le> 1 / 2" using lo hi by linarith
  then have "\<bar>of_nat n - \<bar>x\<bar> * 10 ^ f\<bar> / 10 ^ f \<le> (1 / 2) / 10 ^ f"
    by (rule divide_right_mono) simp
  moreover have "\<bar>of_nat n - \<bar>x\<bar> * 10 ^ f\<bar> / 10 ^ f = \<bar>of_nat n / 10 ^ f - \<bar>x\<bar>\<bar>"
  proof -
    have "\<bar>of_nat n / 10 ^ f - \<bar>x\<bar>\<bar> = \<bar>(of_nat n - \<bar>x\<bar> * 10 ^ f) / 10 ^ f\<bar>"
      by (simp add: diff_divide_distrib)
    also have "\<dots> = \<bar>of_nat n - \<bar>x\<bar> * 10 ^ f\<bar> / \<bar>10 ^ f\<bar>" by (rule abs_divide)
    also have "\<dots> = \<bar>of_nat n - \<bar>x\<bar> * 10 ^ f\<bar> / 10 ^ f" by simp
    finally show ?thesis by simp
  qed
  ultimately show "\<bar>of_nat (digits_value (filter is_digit (fixed_text x f))) / 10 ^ f - \<bar>x\<bar>\<bar> \<le> 1 / (2 * 10 ^ f)"
    by (simp add: f fixed_digits_value [OF assms] n_def)
  obtain a b where s: "fixed_digits \<bar>x\<bar> f = a @ [0x2E] @ b" "a \<noteq> []" "list_all is_digit a"
    using fixed_digits_shape [OF assms] by blast
  then have "hd (fixed_digits \<bar>x\<bar> f) \<noteq> 0x2D"
    by (cases a) (auto dest: is_digit_not_minus)
  then show "x < 0 \<longleftrightarrow> hd (fixed_text x f) = 0x2D"
    by (cases "x < 0") (simp_all add: fixed_text_def ascii_def)
qed

subsection \<open>Property reads\<close>

lemma get_prop_field: "\<not> nullish data \<Longrightarrow> get_prop eng data p = Inr (field data p)"
  by (cases data) simp_all

lemma sample_lookup:
  "field sample_result (ascii ''address'') = String sample_address"
  "field sample_result (ascii ''latitude'') = Number (Fin (163 / 4))"
  "field sample_result (ascii ''longitude'') = Number (Fin (- 895 / 8))"
  "field sample_result (ascii ''elevation_min'') = Number (Fin 1280)"
  "field sample_result (ascii ''elevation_max'') = Number (Fin (2621 / 2))"
  "field sample_result (ascii ''elevation_avg'') = Number (Fin (5181 / 4))"
  "field (field sample_result (ascii ''slope_analysis'')) (ascii ''elevation_change_meters'') = Number (Fin (61 / 2))"
  "field (field sample_result (ascii ''slope_analysis'')) (ascii ''slope_classification'') = String (ascii ''Moderate'')"
  "field (field sample_result (ascii ''slope_analysis'')) (ascii ''buildability_assessment'')
     = String (ascii ''Buildable with grading'')"
  "field sample_result (ascii ''access_score'') = Number (Fin 7)"
  "field sample_result (ascii ''report_pdf'') = String (ascii ''JVBERi0='')"
  by (simp_all add: sample_result_def sample_fields_def sample_slope_def)

lemma sample_bounds:
  "\<bar>163 / 4 :: rat\<bar> < 10 ^ 21" "\<bar>- 895 / 8 :: rat\<bar> < 10 ^ 21" "\<bar>1280 :: rat\<bar> < 10 ^ 21"
  "\<bar>2621 / 2 :: rat\<bar> < 10 ^ 21" "\<bar>5181 / 4 :: rat\<bar> < 10 ^ 21" "\<bar>61 / 2 :: rat\<bar> < 10 ^ 21"
  by simp_all

lemma sample_score_text: "ToString sample_engine (Number (Fin 7)) = Inr (ascii ''7'')"
  by (simp add: sample_engine_def digits_small ascii_def)

subsection \<open>The statements of displayResults\<close>

lemma run_invariant:
  assumes "\<And>stmt s s'. stmt \<in> set stmts \<Longrightarrow> stmt s = Inr s' \<Longrightarrow> I s \<Longrightarrow> I s'"
    and "I s"
  shows "I (fst (run stmts s))"
  using assms
proof (induction stmts arbitrary: s)
  case Nil
  then show ?case by simp
next
  case (Cons stmt rest)
  show ?case
  proof (cases "stmt s")
    case (Inl e)
    then show ?thesis using Cons.prems(2) by simp
  next
    case (Inr s')
    have step: "\<And>st a b. st \<in> set rest \<Longrightarrow> st a = Inr b \<Longrightarrow> I a \<Longrightarrow> I b"
      using Cons.prems(1) by (meson list.set_intros(2))
    have "I s'" using Cons.prems(1) [of stmt s s'] Inr Cons.prems(2) by simp
    then have "I (fst (run rest s'))" using step by (rule Cons.IH [rotated])
    then show ?thesis using Inr by simp
  qed
qed

lemma run_events_prefix:
  assumes "\<And>stmt a b. stmt \<in> set stmts \<Longrightarrow> stmt a = Inr b \<Longrightarrow> prefix (events a) (events b)"
  shows "prefix (events s) (events (fst (run stmts s)))"
  by (rule run_invariant [where I = "\<lambda>s'. prefix (events s) (events s')"])
     (use assms in \<open>auto intro: prefix_order.trans\<close>)

lemma assign_textContent_Inr:
  assumes "assign_textContent eng el v s = Inr s'"
  shows "\<exists>t. s' = set_text el t s"
  using assms by (auto simp: assign_textContent_def and_then_Inr_iff split: if_splits)

lemma displayResults_stored:
  assumes "\<not> nullish data"
  shows "currentReportPDF (fst (displayResults eng data s)) = field data (ascii ''report_pdf'')
       \<and> prefix (events s @ [Stored (field data (ascii ''report_pdf''))])
            (events (fst (displayResults eng data s)))"
proof -
  let ?v = "field data (ascii ''report_pdf'')"
  let ?s1 = "log_event (Stored ?v) (s\<lparr>currentReportPDF := ?v\<rparr>)"
  have "\<exists>rest. displayResults eng data s = run rest ?s1 \<and>
          (\<forall>stmt\<in>set rest. \<forall>a b. stmt a = Inr b \<longrightarrow>
             currentReportPDF b = currentReportPDF a \<and> prefix (events a) (events b))"
    unfolding displayResults_def
    apply (subst run.simps(2))
    apply (simp only: get_prop_field [OF assms] and_then_simps sum.case)
    apply (rule exI, rule conjI, rule refl)
    apply (auto simp: and_then_Inr_iff dest!: assign_textContent_Inr)
    done
  then obtain rest where eq: "displayResults eng data s = run rest ?s1"
    and rest: "\<And>stmt a b. stmt \<in> set rest \<Longrightarrow> stmt a = Inr b \<Longrightarrow>
                 currentReportPDF b = currentReportPDF a \<and> prefix (events a) (events b)"
    by blast
  let ?I = "\<lambda>s'. currentReportPDF s' = ?v \<and> prefix (events s @ [Stored ?v]) (events s')"
  have "?I (fst (run rest ?s1))"
  proof (rule run_invariant [where I = ?I])
    show "?I ?s1" by simp
  next
    fix stmt a b
    assume "stmt \<in> set rest" "stmt a = Inr b" "?I a"
    then show "?I b" using rest [of stmt a b] by (auto intro: prefix_order.trans)
  qed
  then show ?thesis by (simp only: eq)
qed

lemma displayResults_events_prefix:
  "prefix (events s) (events (fst (displayResults eng data s)))"
  unfolding displayResults_def
  by (rule run_events_prefix) (auto simp: and_then_Inr_iff dest!: assign_textContent_Inr)

lemma displayResults_nullish:
  assumes "nullish data"
  shows "\<exists>e. displayResults eng data s = (s, Some e)"
  using assms by (cases data) (simp_all add: displayResults_def)

lemma displayResults_bad_latitude:
  assumes "\<not> nullish data" and "\<forall>x. field data (ascii ''latitude'') \<noteq> Number x"
  shows "\<exists>e s'. displayResults eng data s = (s', Some e) \<and> hidden s' = hidden s \<and>
           textContent s' ResultCoords = textContent s ResultCoords"
proof -
  obtain e where e: "fixed_field eng data (ascii ''latitude'') 6 = Inl e"
    using call_toFixed_not_number [OF assms(2), of eng 6]
    by (auto simp: fixed_field_def get_prop_field [OF assms(1)])
  let ?s1 = "log_event (Stored (field data (ascii ''report_pdf''))) (s\<lparr>currentReportPDF := field data (ascii ''report_pdf'')\<rparr>)"
  show ?thesis
  proof (cases "assign_textContent eng ResultAddress (field data (ascii ''address'')) ?s1")
    case (Inl e2)
    then have "displayResults eng data s = (?s1, Some e2)"
      unfolding displayResults_def
      by (subst run.simps(2), simp only: get_prop_field [OF assms(1)] and_then_simps sum.case)
         (subst run.simps(2), simp only: get_prop_field [OF assms(1)] and_then_simps sum.case)
    then show ?thesis by simp
  next
    case (Inr s2)
    then have "displayResults eng data s = (s2, Some e)"
      unfolding displayResults_def
      by (subst run.simps(2), simp only: get_prop_field [OF assms(1)] and_then_simps sum.case)
         (subst run.simps(2), simp only: get_prop_field [OF assms(1)] and_then_simps sum.case,
          subst run.simps(2), simp only: e and_then_simps sum.case)
    moreover obtain t where "s2 = set_text ResultAddress t ?s1"
      using assign_textContent_Inr [OF Inr] by blast
    ultimately show ?thesis by simp
  qed
qed

lemma displayResults_missing_latitude:
  assumes "field data (ascii ''address'') = String a"
    and "field data (ascii ''latitude'') = Undefined"
  shows "snd (displayResults eng data s) = Some (raise eng (ReadOfNullish Undefined (ascii ''toFixed'')))"
proof -
  have d: "\<not> nullish data" using assms(1) by (cases data) auto
  have e: "fixed_field eng data (ascii ''latitude'') 6
             = Inl (raise eng (ReadOfNullish Undefined (ascii ''toFixed'')))"
    by (simp add: fixed_field_def get_prop_field [OF d] assms(2))
  have str: "\<And>el t s. assign_textContent eng el (String t) s = Inr (set_text el t s)"
    by (simp add: assign_textContent_def)
  show ?thesis
    unfolding displayResults_def
    by (subst run.simps(2), simp only: get_prop_field [OF d] and_then_simps sum.case,
        subst run.simps(2), simp only: get_prop_field [OF d] assms(1) str and_then_simps sum.case,
        subst run.simps(2), simp only: e and_then_simps sum.case snd_conv)
qed

subsection \<open>The submit handler\<close>

lemma submit_blank:
  assumes "list_all white_space (addressInput s)"
  shows "submit eng net s = (showError (ascii ''Please enter an address'') (log_event PreventDefault s), None)"
  using assms by (simp add: submit_def Let_def trim_empty_iff)

lemma submit_nonblank:
  assumes "\<not> list_all white_space (addressInput s)"
  shows "submit eng net s =
     (let s1 = classList_add ErrorBox (classList_add Results (classList_remove Loading (log_event PreventDefault s)));
          r = try_block eng net (trim (addressInput s)) s1
      in (classList_add Loading
            (case snd r of None \<Rightarrow> fst r
             | Some e \<Rightarrow> showError (shown_message e) (log_event (ConsoleError e) (fst r))), None))"
  using assms
  by (cases "try_block eng net (trim (addressInput s))
        (classList_add ErrorBox (classList_add Results (classList_remove Loading (log_event PreventDefault s))))")
     (simp add: submit_def Let_def trim_empty_iff shown_message_def split: option.splits)

lemma try_block_Rejected:
  "try_block eng (Rejected e) a s = (log_event (Request (API_URL @ ascii ''/analyze'') a) s, Some e)"
  by (simp add: try_block_def Let_def)

lemma try_block_not_ok:
  "\<exists>e. try_block eng (Response False b) a s = (log_event (Request (API_URL @ ascii ''/analyze'') a) s, Some e)"
  by (auto simp: try_block_def Let_def split: body.splits sum.splits)

lemma try_block_unreadable:
  "try_block eng (Response ok (Unreadable e)) a s = (log_event (Request (API_URL @ ascii ''/analyze'') a) s, Some e)"
  by (simp add: try_block_def Let_def)

lemma try_block_ok:
  "try_block eng (Response True (Json data)) a s
     = displayResults eng data (log_event (Request (API_URL @ ascii ''/analyze'') a) s)"
  by (simp add: try_block_def Let_def)

lemma try_block_events_prefix:
  "prefix (events s @ [Request (API_URL @ ascii ''/analyze'') a]) (events (fst (try_block eng net a s)))"
proof (cases net)
  case (Rejected e)
  then show ?thesis by (simp add: try_block_Rejected)
next
  case (Response ok b)
  show ?thesis
  proof (cases ok)
    case False
    then show ?thesis using Response try_block_not_ok [of eng b a s] by auto
  next
    case True
    show ?thesis
    proof (cases b)
      case (Unreadable e)
      then show ?thesis using Response by (simp add: try_block_unreadable)
    next
      case (Json data)
      then show ?thesis
        using Response True displayResults_events_prefix [of "log_event (Request (API_URL @ ascii ''/analyze'') a) s" eng data]
        by (simp add: try_block_ok)
    qed
  qed
qed

lemma try_block_detail:
  assumes "\<not> nullish errorData"
  shows "try_block eng (Response False (Json errorData)) a s =
          (log_event (Request (API_URL @ ascii ''/analyze'') a) s,
           Some (case new_Error eng (if truthy (field errorData (ascii ''detail''))
                                     then field errorData (ascii ''detail'')
                                     else String (ascii ''Analysis failed'')) of
                   Inl e \<Rightarrow> e | Inr e \<Rightarrow> e))"
  by (simp add: try_block_def Let_def get_prop_field [OF assms] split: sum.splits)

lemma submit_thrown_keeps:
  assumes "try_block eng net (trim (addressInput s))
             (classList_add ErrorBox (classList_add Results (classList_remove Loading (log_event PreventDefault s))))
           = (log_event ev (classList_add ErrorBox (classList_add Results (classList_remove Loading (log_event PreventDefault s)))), Some e)"
  shows "currentReportPDF (fst (submit eng net s)) = currentReportPDF s"
proof (cases "list_all white_space (addressInput s)")
  case True
  then show ?thesis by (simp add: submit_blank)
next
  case False
  then show ?thesis using assms by (simp add: submit_nonblank Let_def)
qed

subsection \<open>Base64\<close>

lemma byte_lt: "unat (a :: byte) < 256"
  using unsigned_less [of a, where 'a = nat] by simp

lemma q16: "(a :: nat) div 4 * 64 + a mod 4 * 16 = a * 16" by presburger

lemma q4: "(b :: nat) div 16 * 64 + b mod 16 * 4 = b * 4" by presburger

lemma q64: "(c :: nat) div 64 * 64 + c mod 64 = c" by simp

lemma group3:
  fixes a b c :: nat
  shows "((a div 4 * 64 + (a mod 4 * 16 + b div 16)) * 64 + (b mod 16 * 4 + c div 64)) * 64 + c mod 64
         = a * 65536 + b * 256 + c"
proof -
  have "((a div 4 * 64 + (a mod 4 * 16 + b div 16)) * 64 + (b mod 16 * 4 + c div 64)) * 64 + c mod 64
        = (a div 4 * 64 + a mod 4 * 16) * 4096 + (b div 16 * 64 + b mod 16 * 4) * 64
          + (c div 64 * 64 + c mod 64)"
    by (simp add: algebra_simps)
  also have "\<dots> = a * 16 * 4096 + b * 4 * 64 + c"
    by (simp only: q16 q4 q64)
  finally show ?thesis by simp
qed

lemma group2:
  fixes a b :: nat
  shows "((a div 4 * 64 + (a mod 4 * 16 + b div 16)) * 64 + b mod 16 * 4) div 4 = a * 256 + b"
proof -
  have "(a div 4 * 64 + (a mod 4 * 16 + b div 16)) * 64 + b mod 16 * 4
        = (a div 4 * 64 + a mod 4 * 16) * 64 + (b div 16 * 64 + b mod 16 * 4)"
    by (simp add: algebra_simps)
  also have "\<dots> = (a * 256 + b) * 4"
    by (simp only: q16 q4) simp
  finally show ?thesis by simp
qed

lemma group1:
  fixes a :: nat
  shows "(a div 4 * 64 + a mod 4 * 16) div 16 = a"
  by (simp only: q16)

lemma split3:
  fixes a b c :: nat
  assumes "a < 256" "b < 256" "c < 256"
  shows "(a * 65536 + b * 256 + c) div 65536 = a"
    and "(a * 65536 + b * 256 + c) div 256 mod 256 = b"
    and "(a * 65536 + b * 256 + c) mod 256 = c"
proof -
  have e: "a * 65536 + b * 256 + c = (a * 256 + b) * 256 + c" by simp
  have d: "(a * 65536 + b * 256 + c) div 256 = a * 256 + b"
    unfolding e using assms(3) by simp
  show "(a * 65536 + b * 256 + c) div 65536 = a" using assms by simp
  show "(a * 65536 + b * 256 + c) div 256 mod 256 = b" unfolding d using assms(2) by simp
  have "((a * 256 + b) * 256 + c) mod 256 = c mod 256" by (rule mod_mult_self3)
  then have "((a * 256 + b) * 256 + c) mod 256 = c" using assms(3) by (simp only: mod_less)
  then show "(a * 65536 + b * 256 + c) mod 256 = c" by (simp only: e)
qed

lemma split2:
  fixes a b :: nat
  assumes "a < 256" "b < 256"
  shows "(a * 256 + b) div 256 = a" and "(a * 256 + b) mod 256 = b"
  using assms by simp_all

lemma of_nat_unat_byte: "of_nat (unat (a :: byte)) = a"
  by simp

lemma sextets_roundtrip: "sextets_to_bytes (bytes_to_sextets bs) = bs"
proof (induction bs rule: bytes_to_sextets.induct)
  case (1 a b c r)
  have "sextets_to_bytes (bytes_to_sextets (a # b # c # r)) =
        [of_nat ((unat a * 65536 + unat b * 256 + unat c) div 65536),
         of_nat ((unat a * 65536 + unat b * 256 + unat c) div 256 mod 256),
         of_nat ((unat a * 65536 + unat b * 256 + unat c) mod 256)]
        @ sextets_to_bytes (bytes_to_sextets r)"
    by (simp only: bytes_to_sextets.simps append_Cons append_Nil sextets_to_bytes.simps group3 Let_def)
  then show ?case
    by (simp only: split3 [OF byte_lt byte_lt byte_lt] of_nat_unat_byte 1 append_Cons append_Nil)
next
  case (2 a b)
  have "sextets_to_bytes (bytes_to_sextets [a, b]) =
        [of_nat ((unat a * 256 + unat b) div 256), of_nat ((unat a * 256 + unat b) mod 256)]"
    by (simp only: bytes_to_sextets.simps sextets_to_bytes.simps group2 Let_def)
  then show ?case
    by (simp only: split2 [OF byte_lt byte_lt] of_nat_unat_byte)
next
  case (3 a)
  show ?case
    by (simp only: bytes_to_sextets.simps sextets_to_bytes.simps group1 of_nat_unat_byte)
next
  case 4
  show ?case by simp
qed

lemma sextet_lt:
  fixes a b :: nat
  assumes "a < 256" "b < 256"
  shows "a div 4 < 64" and "a mod 4 * 16 + b div 16 < 64" and "a mod 16 * 4 + b div 64 < 64"
    and "a mod 64 < 64" and "a mod 4 * 16 < 64" and "a mod 16 * 4 < 64"
proof -
  have "a mod 4 < 4" "a mod 16 < 16" "b div 16 < 16" "b div 64 < 4" using assms by simp_all
  then show "a mod 4 * 16 + b div 16 < 64" "a mod 16 * 4 + b div 64 < 64"
    "a mod 4 * 16 < 64" "a mod 16 * 4 < 64" by linarith+
  show "a div 4 < 64" using assms by simp
  show "a mod 64 < 64" by simp
qed

lemma sextets_bound: "list_all (\<lambda>i. i < 64) (bytes_to_sextets bs)"
proof (induction bs rule: bytes_to_sextets.induct)
  case (1 a b c r)
  then show ?case
    using sextet_lt [of "unat a" "unat b", OF byte_lt byte_lt] sextet_lt [of "unat b" "unat c", OF byte_lt byte_lt]
      sextet_lt [of "unat c" "unat c", OF byte_lt byte_lt] by simp
next
  case (2 a b)
  then show ?case
    using sextet_lt [of "unat a" "unat b", OF byte_lt byte_lt] sextet_lt [of "unat b" "unat b", OF byte_lt byte_lt] by simp
next
  case (3 a)
  then show ?case using sextet_lt [of "unat a" "unat a", OF byte_lt byte_lt] by simp
qed simp

lemma sextets_length_mod: "length (bytes_to_sextets bs) mod 4 \<noteq> 1"
  by (induction bs rule: bytes_to_sextets.induct) simp_all

lemma padding_cases:
  "(length bs mod 3 = 0 \<and> length (bytes_to_sextets bs) mod 4 = 0) \<or>
   (length bs mod 3 = 1 \<and> length (bytes_to_sextets bs) mod 4 = 2) \<or>
   (length bs mod 3 = 2 \<and> length (bytes_to_sextets bs) mod 4 = 3)"
  by (induction bs rule: bytes_to_sextets.induct) simp_all

lemma alphabet_table:
  "list_all (\<lambda>i. alphabet_index (base64_alphabet ! i) = Some i \<and>
                  \<not> ascii_whitespace (base64_alphabet ! i) \<and> base64_alphabet ! i \<noteq> 0x3D)
     [0..<64]"
proof -
  define P where "P i \<longleftrightarrow> alphabet_index (base64_alphabet ! i) = Some i \<and>
                  \<not> ascii_whitespace (base64_alphabet ! i) \<and> base64_alphabet ! i \<noteq> 0x3D" for i
  have "list_all P [0..<64]"
    apply (simp add: upt_conv_Cons)
    apply (simp add: P_def base64_alphabet_def ascii_def alphabet_index_def ascii_whitespace_def)
    done
  then show ?thesis by (auto simp: list_all_iff P_def)
qed

lemma alphabet_nth:
  assumes "i < 64"
  shows "alphabet_index (base64_alphabet ! i) = Some i"
    and "\<not> ascii_whitespace (base64_alphabet ! i)"
    and "base64_alphabet ! i \<noteq> 0x3D"
  using alphabet_table assms by (simp_all add: list_all_iff)

lemma encoded_body_chars:
  "c \<in> set (encoded_body bs) \<Longrightarrow>
     alphabet_index c \<noteq> None \<and> \<not> ascii_whitespace c \<and> c \<noteq> 0x3D"
  using sextets_bound [of bs] by (auto simp: encoded_body_def list_all_iff alphabet_nth)

lemma encoded_body_indices:
  "map (\<lambda>c. the (alphabet_index c)) (encoded_body bs) = bytes_to_sextets bs"
proof -
  have "map (\<lambda>c. the (alphabet_index c)) (encoded_body bs)
        = map (\<lambda>i. the (alphabet_index (base64_alphabet ! i))) (bytes_to_sextets bs)"
    by (simp add: encoded_body_def comp_def)
  also have "\<dots> = map (\<lambda>i. i) (bytes_to_sextets bs)"
    using sextets_bound [of bs] by (intro map_cong refl) (simp add: list_all_iff alphabet_nth)
  finally show ?thesis by simp
qed

lemma not_padded_end:
  assumes "d \<noteq> []" and "last d \<noteq> 0x3D"
  shows "drop (length d - 2) d \<noteq> [0x3D, 0x3D]" and "drop (length d - 1) d \<noteq> [0x3D]"
proof -
  have l2: "last (drop (length d - 2) d) = last d" using assms(1) by simp
  have l1: "last (drop (length d - 1) d) = last d" using assms(1) by simp
  show "drop (length d - 2) d \<noteq> [0x3D, 0x3D]" using l2 assms(2) by auto
  show "drop (length d - 1) d \<noteq> [0x3D]" using l1 assms(2) by auto
qed

lemma strip_padding_encoded:
  "strip_padding (encoded_body bs @ replicate ((3 - length bs mod 3) mod 3) 0x3D) = encoded_body bs"
proof -
  let ?b = "encoded_body bs"
  have len: "length ?b = length (bytes_to_sextets bs)" by (simp add: encoded_body_def)
  have lastb: "?b \<noteq> [] \<Longrightarrow> last ?b \<noteq> 0x3D"
    using encoded_body_chars [of "last ?b" bs] by simp
  consider (p0) "length bs mod 3 = 0" "length ?b mod 4 = 0"
    | (p1) "length bs mod 3 = 1" "length ?b mod 4 = 2"
    | (p2) "length bs mod 3 = 2" "length ?b mod 4 = 3"
    using padding_cases [of bs] len by auto
  then show ?thesis
  proof cases
    case p0
    show ?thesis
    proof (cases "?b = []")
      case True
      then show ?thesis using p0 by (simp add: strip_padding_def)
    next
      case False
      then show ?thesis
        using p0 not_padded_end [OF False lastb [OF False]] by (simp add: strip_padding_def)
    qed
  next
    case p1
    then have "(length ?b + 2) mod 4 = 0" by presburger
    moreover have "replicate 2 (0x3D :: 16 word) = [0x3D, 0x3D]" by (simp add: numeral_2_eq_2)
    ultimately show ?thesis using p1 by (simp add: strip_padding_def)
  next
    case p2
    then have ne: "?b \<noteq> []" by auto
    have m: "Suc (length ?b) mod 4 = 0" using p2 by presburger
    have "drop (length ?b - Suc 0) ?b \<noteq> [0x3D]" using not_padded_end(2) [OF ne lastb [OF ne]] by simp
    then show ?thesis using p2 m ne by (simp add: strip_padding_def)
  qed
qed

lemma forgiving_base64_decode_encode: "forgiving_base64_decode (base64_encode bs) = Some bs"
proof -
  have ws: "filter (\<lambda>c. \<not> ascii_whitespace c) (base64_encode bs) = base64_encode bs"
  proof (rule filter_True)
    show "\<forall>c\<in>set (base64_encode bs). \<not> ascii_whitespace c"
      using encoded_body_chars [of _ bs]
      by (auto simp: base64_encode_def ascii_whitespace_def)
  qed
  have st: "strip_padding (base64_encode bs) = encoded_body bs"
    by (simp only: base64_encode_def strip_padding_encoded)
  have len: "length (encoded_body bs) mod 4 \<noteq> 1"
    using sextets_length_mod [of bs] by (simp add: encoded_body_def)
  have al: "list_all (\<lambda>c. alphabet_index c \<noteq> None) (encoded_body bs)"
    using encoded_body_chars [of _ bs] by (simp add: list_all_iff)
  show ?thesis
    unfolding forgiving_base64_decode_def ws st Let_def
    using len al by (simp add: encoded_body_indices sextets_roundtrip)
qed

lemma charCodes_of_bytes:
  "map ToUint8 (map (charCodeAt (map ucast bs)) [0..<length (map ucast bs :: jsstring)]) = bs"
proof (rule nth_equalityI)
  show "length (map ToUint8 (map (charCodeAt (map ucast bs)) [0..<length (map ucast bs :: jsstring)])) = length bs"
    by simp
next
  fix i
  assume "i < length (map ToUint8 (map (charCodeAt (map ucast bs)) [0..<length (map ucast bs :: jsstring)]))"
  then have i: "i < length bs" by simp
  have "unat (ucast (bs ! i) :: 16 word) = take_bit LENGTH(16) (unat (bs ! i))"
    by (rule unsigned_ucast_eq)
  then have "unat (ucast (bs ! i) :: 16 word) = unat (bs ! i)"
    using byte_lt [of "bs ! i"] by (simp add: take_bit_eq_mod)
  then have "ToUint8 (charCodeAt (map ucast bs) i) = bs ! i"
    using i byte_lt [of "bs ! i"] by (simp add: ToUint8_def charCodeAt_def)
  then show "map ToUint8 (map (charCodeAt (map ucast bs)) [0..<length (map ucast bs :: jsstring)]) ! i = bs ! i"
    using i by simp
qed

lemma charCodes_of_bytes':
  "map (ToUint8 \<circ> charCodeAt (map ucast bs)) [0..<length bs] = bs"
  using charCodes_of_bytes [of bs] by simp

lemma atob_base64_encode: "atob eng (String (base64_encode bs)) = Inr (map ucast bs)"
  by (simp add: atob_def forgiving_base64_decode_encode)

lemma base64_examples:
  "base64_encode [] = []"
  "base64_encode [0x4D] = ascii ''TQ==''"
  "base64_encode [0x4D, 0x61] = ascii ''TWE=''"
  "base64_encode [0x4D, 0x61, 0x6E] = ascii ''TWFu''"
  "base64_encode [0x25, 0x50, 0x44, 0x46, 0x2D] = ascii ''JVBERi0=''"
  "base64_encode [0xFB, 0xFF, 0xBF] = ascii ''+/+/''"
  by (simp_all add: base64_encode_def encoded_body_def base64_alphabet_def ascii_def numeral_2_eq_2
      take_bit_eq_mod)

lemma atob_examples:
  "atob eng (String (ascii '' T W\<newline>F u ''))  = Inr [0x4D, 0x61, 0x6E]"
  "atob eng (String (ascii ''TWE'')) = Inr [0x4D, 0x61]"
  "atob eng (String (ascii ''TQ='')) = Inl (raise eng BadBase64)"
  "atob eng (String (ascii ''T'')) = Inl (raise eng BadBase64)"
  "atob eng (Boolean True) = Inr [0xB6, 0xBB, 0x9E]"
  by (simp_all add: atob_def forgiving_base64_decode_def strip_padding_def ascii_whitespace_def
      alphabet_index_def ascii_def take_bit_eq_mod)

section \<open>The claims\<close>

subsection \<open>C1: the rendered fields\<close>

text \<open>
  Claim C1, amended. For a submission with a non-blank address and a successful response
  whose body is an analysis result (a text address, numeric latitude, longitude,
  elevation_min, elevation_max and elevation_avg, a slope_analysis object with a numeric
  elevation_change_meters and text slope_classification and buildability_assessment, and an
  access_score that is present), where every numeric field is finite and of magnitude
  below \<open>10^21\<close>: the address is shown verbatim, the coordinates with exactly 6 decimal
  places each, the three elevations and the elevation change with exactly 1 decimal place
  followed by \<open>m\<close>, the two slope labels verbatim and the access score as its text; the
  results are shown, and no error is.
\<close>

theorem rendering_populates_fields:
  assumes "\<not> list_all white_space (addressInput s)"
    and "field data (ascii ''address'') = String addr"
    and "field data (ascii ''latitude'') = Number (Fin lat)" and "\<bar>lat\<bar> < 10 ^ 21"
    and "field data (ascii ''longitude'') = Number (Fin lon)" and "\<bar>lon\<bar> < 10 ^ 21"
    and "field data (ascii ''elevation_min'') = Number (Fin lo)" and "\<bar>lo\<bar> < 10 ^ 21"
    and "field data (ascii ''elevation_max'') = Number (Fin hi)" and "\<bar>hi\<bar> < 10 ^ 21"
    and "field data (ascii ''elevation_avg'') = Number (Fin av)" and "\<bar>av\<bar> < 10 ^ 21"
    and "field (field data (ascii ''slope_analysis'')) (ascii ''elevation_change_meters'') = Number (Fin chg)"
    and "\<bar>chg\<bar> < 10 ^ 21"
    and "field (field data (ascii ''slope_analysis'')) (ascii ''slope_classification'') = String cls"
    and "field (field data (ascii ''slope_analysis'')) (ascii ''buildability_assessment'') = String bld"
    and "field data (ascii ''access_score'') = score" and "\<not> nullish score"
    and "ToString eng score = Inr shown"
  shows "textContent (fst (submit eng (Response True (Json data)) s)) ResultAddress = addr \<and>
         textContent (fst (submit eng (Response True (Json data)) s)) ResultCoords =
           ascii ''Coordinates: '' @ fixed_text lat 6 @ ascii '', '' @ fixed_text lon 6 \<and>
         decimal_places 6 (fixed_text lat 6) \<and> decimal_places 6 (fixed_text lon 6) \<and>
         textContent (fst (submit eng (Response True (Json data)) s)) ElevMin = fixed_text lo 1 @ ascii ''m'' \<and>
         textContent (fst (submit eng (Response True (Json data)) s)) ElevMax = fixed_text hi 1 @ ascii ''m'' \<and>
         textContent (fst (submit eng (Response True (Json data)) s)) ElevAvg = fixed_text av 1 @ ascii ''m'' \<and>
         textContent (fst (submit eng (Response True (Json data)) s)) ElevChange = fixed_text chg 1 @ ascii ''m'' \<and>
         decimal_places 1 (fixed_text lo 1) \<and> decimal_places 1 (fixed_text hi 1) \<and>
         decimal_places 1 (fixed_text av 1) \<and> decimal_places 1 (fixed_text chg 1) \<and>
         textContent (fst (submit eng (Response True (Json data)) s)) SlopeClass = cls \<and>
         textContent (fst (submit eng (Response True (Json data)) s)) Buildability = bld \<and>
         textContent (fst (submit eng (Response True (Json data)) s)) AccessScore = shown \<and>
         \<not> hidden (fst (submit eng (Response True (Json data)) s)) Results \<and>
         hidden (fst (submit eng (Response True (Json data)) s)) ErrorBox \<and>
         hidden (fst (submit eng (Response True (Json data)) s)) Loading \<and>
         snd (submit eng (Response True (Json data)) s) = None"
proof -
  have d: "\<not> nullish data" using assms(2) by (cases data) auto
  have sa: "\<not> nullish (field data (ascii ''slope_analysis''))"
    using assms(15) by (cases "field data (ascii ''slope_analysis'')") auto
  have sc: "\<And>s. assign_textContent eng AccessScore score s = Inr (set_text AccessScore shown s)"
    using assms(18,19) by (cases score) (auto simp: assign_textContent_def)
  have str: "\<And>el t s. assign_textContent eng el (String t) s = Inr (set_text el t s)"
    by (simp add: assign_textContent_def)
  have fx: "toFixed eng (Fin lat) 6 = Inr (fixed_text lat 6)" "toFixed eng (Fin lon) 6 = Inr (fixed_text lon 6)"
    "toFixed eng (Fin lo) 1 = Inr (fixed_text lo 1)" "toFixed eng (Fin hi) 1 = Inr (fixed_text hi 1)"
    "toFixed eng (Fin av) 1 = Inr (fixed_text av 1)" "toFixed eng (Fin chg) 1 = Inr (fixed_text chg 1)"
    using assms by (simp_all only: toFixed_small)
  let ?s2 = "log_event (Request (API_URL @ ascii ''/analyze'') (trim (addressInput s)))
      (classList_add ErrorBox (classList_add Results (classList_remove Loading (log_event PreventDefault s))))"
  have dr: "displayResults eng data ?s2 =
     (log_event (Scrolled Results) (classList_remove Results
       (set_text AccessScore shown (set_text Buildability bld (set_text SlopeClass cls
       (set_text ElevChange (fixed_text chg 1 @ ascii ''m'')
       (set_text ElevAvg (fixed_text av 1 @ ascii ''m'')
       (set_text ElevMax (fixed_text hi 1 @ ascii ''m'')
       (set_text ElevMin (fixed_text lo 1 @ ascii ''m'')
       (set_text ResultCoords (ascii ''Coordinates: '' @ fixed_text lat 6 @ ascii '', '' @ fixed_text lon 6)
       (set_text ResultAddress addr
       (log_event (Stored (field data (ascii ''report_pdf'')))
          (?s2\<lparr>currentReportPDF := field data (ascii ''report_pdf'')\<rparr>)))))))))))), None)"
    unfolding displayResults_def
    by (simp add: get_prop_field [OF d] get_prop_field [OF sa] fixed_field_def assms(2,3,5,7,9,11,13,15,16,17)
          sc str fx(1,2) fx(3-6) [unfolded One_nat_def] del: toFixed.simps)
  show ?thesis
    unfolding submit_nonblank [OF assms(1)] Let_def try_block_ok dr
    by (simp add: decimal_places_fixed_text)
qed

theorem rendering_populates_fields_witness:
  "\<not> list_all white_space (addressInput sample_page) \<and>
   textContent (fst (submit sample_engine (Response True (Json sample_result))
       sample_page)) ResultAddress
     = sample_address \<and>
   textContent (fst (submit sample_engine (Response True (Json sample_result))
       sample_page)) ResultCoords
     = ascii ''Coordinates: 40.750000, -111.875000'' \<and>
   textContent (fst (submit sample_engine (Response True (Json sample_result))
       sample_page)) ElevMin = ascii ''1280.0m'' \<and>
   textContent (fst (submit sample_engine (Response True (Json sample_result))
       sample_page)) ElevMax = ascii ''1310.5m'' \<and>
   textContent (fst (submit sample_engine (Response True (Json sample_result))
       sample_page)) ElevAvg = ascii ''1295.3m'' \<and>
   textContent (fst (submit sample_engine (Response True (Json sample_result))
       sample_page)) ElevChange = ascii ''30.5m'' \<and>
   textContent (fst (submit sample_engine (Response True (Json sample_result))
       sample_page)) SlopeClass = ascii ''Moderate'' \<and>
   textContent (fst (submit sample_engine (Response True (Json sample_result))
       sample_page)) Buildability
     = ascii ''Buildable with grading'' \<and>
   textContent (fst (submit sample_engine (Response True (Json sample_result))
       sample_page)) AccessScore = ascii ''7''"
proof -
  have h: "\<not> list_all white_space (addressInput sample_page)"
    by (simp add: not_blank_sample)
  have n: "\<not> nullish (Number (Fin 7))" by simp
  note r = rendering_populates_fields [OF h sample_lookup(1) sample_lookup(2) sample_bounds(1)
      sample_lookup(3) sample_bounds(2) sample_lookup(4) sample_bounds(3) sample_lookup(5)
      sample_bounds(4) sample_lookup(6) sample_bounds(5) sample_lookup(7) sample_bounds(6)
      sample_lookup(8) sample_lookup(9) sample_lookup(10) n sample_score_text]
  have cat: "ascii ''Coordinates: '' @ ascii ''40.750000'' @ ascii '', '' @ ascii ''-111.875000''
               = ascii ''Coordinates: 40.750000, -111.875000''"
    "ascii ''1280.0'' @ ascii ''m'' = ascii ''1280.0m''" "ascii ''1310.5'' @ ascii ''m'' = ascii ''1310.5m''"
    "ascii ''1295.3'' @ ascii ''m'' = ascii ''1295.3m''" "ascii ''30.5'' @ ascii ''m'' = ascii ''30.5m''"
    by (simp_all add: ascii_def)
  from r h show ?thesis by (simp add: fixed_examples cat)
qed

text \<open>
  The bound is needed. A body with \<open>"latitude": 1e999\<close> parses to an infinite latitude,
  and \<open>toFixed\<close> prints it as \<open>Infinity\<close>, with no decimal place at all; from
  \<open>10^21\<close> on, \<open>toFixed\<close> gives the engine's exponent notation.
\<close>

theorem infinite_latitude_counterexample:
  "textContent (fst (submit sample_engine
       (Response True (Json (Object ((ascii ''latitude'', Number PosInf) # sample_fields))))
       sample_page)) ResultCoords
     = ascii ''Coordinates: Infinity, -111.875000'' \<and>
   \<not> decimal_places 6 (ascii ''Infinity'')"
proof -
  have "textContent (fst (displayResults sample_engine
           (Object ((ascii ''latitude'', Number PosInf) # sample_fields)) s)) ResultCoords
         = ascii ''Coordinates: Infinity, -111.875000''" for s
    unfolding displayResults_def
    by (simp add: sample_fields_def sample_slope_def fixed_field_def assign_textContent_def
        toFixed_small toFixed_PosInf fixed_examples sample_score_text [simplified] ascii_def
        del: toFixed.simps)
  moreover have "\<not> decimal_places 6 (ascii ''Infinity'')"
    by (simp add: decimal_places_def ascii_def is_digit_def)
  ultimately show ?thesis
    by (simp add: submit_nonblank not_blank_sample Let_def try_block_ok split: option.splits)
qed

subsection \<open>C2: decoding the report\<close>

text \<open>
  Claim C2. For every byte sequence, the empty one included, the decode step of the
  download handler applied to the standard base64 encoding of the bytes gives the bytes
  back.
\<close>

theorem decode_inverts_base64: "decode_report eng (String (base64_encode bs)) = Inr bs"
proof -
  have "atob eng (String (base64_encode bs)) = Inr (map ucast bs)"
    by (rule atob_base64_encode)
  then have "decode_report eng (String (base64_encode bs))
      = Inr (map ToUint8 (map (charCodeAt (map ucast bs)) [0..<length (map ucast bs :: jsstring)]))"
    by (simp add: decode_report_def Let_def)
  then show ?thesis by (simp only: charCodes_of_bytes)
qed

text \<open>
  Through the whole handler a non-empty report is saved under the fixed file name. (The
  encoding of the empty sequence is the empty string, which the handler takes as no report:
  see C6.)
\<close>

lemma base64_encode_nonempty: "bs \<noteq> [] \<Longrightarrow> base64_encode bs \<noteq> []"
  by (cases bs rule: bytes_to_sextets.cases) (simp_all add: base64_encode_def encoded_body_def)

lemma download_saves_report:
  assumes "bs \<noteq> []" and "currentReportPDF s = String (base64_encode bs)"
  shows "download eng s =
     (s\<lparr>events := events s @
           [ObjectURLCreated bs (ascii ''application/pdf''), AnchorAppended,
            AnchorClicked (ascii ''site-analysis-report.pdf'') bs, ObjectURLRevoked, AnchorRemoved]\<rparr>,
      None)"
proof -
  have "decode_report eng (currentReportPDF s) = Inr bs"
    by (simp add: assms(2) decode_report_def Let_def atob_base64_encode charCodes_of_bytes')
  moreover have "truthy (currentReportPDF s)"
    using base64_encode_nonempty [OF assms(1)] by (simp add: assms(2))
  ultimately show ?thesis by (simp add: download_def)
qed

subsection \<open>C3: the message of a service error\<close>

text \<open>
  Claim C3, amended. For a submission with a non-blank address and an unsuccessful response
  whose body parses to a value other than \<open>null\<close>: the message shown is the \<open>detail\<close>
  of the body when that is a non-empty text, and exactly \<open>Analysis failed\<close> when the body
  has no \<open>detail\<close> or a falsy one (absent, null, empty, zero, false).
\<close>

theorem service_error_message:
  assumes "\<not> list_all white_space (addressInput s)" and "\<not> nullish errorData"
  shows "(field errorData (ascii ''detail'') = String d \<and> d \<noteq> [] \<longrightarrow>
            textContent (fst (submit eng (Response False (Json errorData)) s)) ErrorP = d) \<and>
         (\<not> truthy (field errorData (ascii ''detail'')) \<longrightarrow>
            textContent (fst (submit eng (Response False (Json errorData)) s)) ErrorP = ascii ''Analysis failed'') \<and>
         \<not> hidden (fst (submit eng (Response False (Json errorData)) s)) ErrorBox"
  by (auto simp: submit_nonblank [OF assms(1)] Let_def try_block_detail [OF assms(2)]
        new_Error_def shown_message_def)

theorem service_error_message_witness:
  "\<not> list_all white_space (addressInput sample_page) \<and>
   textContent (fst (submit sample_engine
       (Response False (Json (Object [(ascii ''detail'', String (ascii ''bad address''))])))
       sample_page)) ErrorP = ascii ''bad address'' \<and>
   textContent (fst (submit sample_engine (Response False (Json (Object [])))
       sample_page)) ErrorP = ascii ''Analysis failed''"
proof -
  have h: "\<not> list_all white_space (addressInput sample_page)"
    by (simp add: not_blank_sample)
  have n1: "\<not> nullish (Object [(ascii ''detail'', String (ascii ''bad address''))])"
    and n2: "\<not> nullish (Object [])" by simp_all
  show ?thesis
    using h service_error_message [OF h n1, of "ascii ''bad address''" sample_engine]
      service_error_message [OF h n2, of "[]" sample_engine]
    by simp
qed

text \<open>
  When the body is missing or is not JSON, \<open>response.json()\<close> rejects before the fallback
  is reached, and what is shown is the message of that rejection, not \<open>Analysis failed\<close>.
\<close>

theorem unparsable_body_counterexample:
  "textContent (fst (submit sample_engine
       (Response False (Unreadable (Exn SyntaxError (ascii ''Unexpected end of JSON input''))))
       sample_page)) ErrorP
     = ascii ''Unexpected end of JSON input'' \<and>
   ascii ''Unexpected end of JSON input'' \<noteq> ascii ''Analysis failed''"
  by (simp add: submit_nonblank not_blank_sample Let_def try_block_unreadable shown_message_def)

subsection \<open>C4: a blank address\<close>

text \<open>
  Claim C4, amended. For every address input that is empty or consists of white space only,
  the submit handler shows the message \<open>Please enter an address\<close> and returns: no request
  is issued, the loading indicator and the results are not touched, and the stored report
  is kept.
\<close>

theorem blank_address_rejected:
  assumes "list_all white_space (addressInput s)"
  shows "snd (submit eng net s) = None \<and>
         events (fst (submit eng net s)) =
           events s @ [PreventDefault, TextSet ErrorP (ascii ''Please enter an address''),
                       ClassRemoved ErrorBox] \<and>
         textContent (fst (submit eng net s)) = (textContent s)(ErrorP := ascii ''Please enter an address'') \<and>
         hidden (fst (submit eng net s)) = (hidden s)(ErrorBox := False) \<and>
         currentReportPDF (fst (submit eng net s)) = currentReportPDF s"
proof -
  have "submit eng net s
      = (showError (ascii ''Please enter an address'') (log_event PreventDefault s), None)"
    using assms by (rule submit_blank)
  then show ?thesis by simp
qed

theorem blank_address_rejected_witness:
  "list_all white_space (addressInput (fresh_page (ascii ''  ''))) \<and>
   events (fst (submit sample_engine (Response True (Json sample_result)) (fresh_page (ascii ''  '')))) =
     [PreventDefault, TextSet ErrorP (ascii ''Please enter an address''), ClassRemoved ErrorBox] \<and>
   textContent (fst (submit sample_engine (Response True (Json sample_result)) (fresh_page (ascii ''  '')))) ErrorP
     = ascii ''Please enter an address''"
proof -
  have h: "list_all white_space (addressInput (fresh_page (ascii ''  '')))"
    by (simp add: blank_sample)
  show ?thesis
    using h blank_address_rejected [OF h, of sample_engine "Response True (Json sample_result)"]
    by simp
qed

text \<open>The message shown is not \<open>address required\<close>.\<close>

theorem blank_address_message_counterexample:
  "textContent (fst (submit sample_engine (Response True (Json sample_result)) (fresh_page []))) ErrorP
     \<noteq> ascii ''address required''"
  by (simp add: submit_blank)

subsection \<open>C5: the loading indicator\<close>

text \<open>
  Claim C5. For every submission with a non-blank address (the pending state is entered:
  the indicator is shown and the request is issued) and for every outcome of the request,
  of the parsing of the body and of the rendering, the last action of the handler hides
  the loading indicator, and no error leaves the handler.
\<close>

theorem loading_cleared_last:
  assumes "\<not> list_all white_space (addressInput s)"
  shows "hidden (fst (submit eng net s)) Loading \<and>
         last (events (fst (submit eng net s))) = ClassAdded Loading \<and>
         prefix (events s @ [PreventDefault, ClassRemoved Loading, ClassAdded Results, ClassAdded ErrorBox,
                             Request (API_URL @ ascii ''/analyze'') (trim (addressInput s))])
                (events (fst (submit eng net s))) \<and>
         snd (submit eng net s) = None"
proof -
  let ?s1 = "classList_add ErrorBox (classList_add Results (classList_remove Loading (log_event PreventDefault s)))"
  let ?r = "try_block eng net (trim (addressInput s)) ?s1"
  have p: "prefix (events ?s1 @ [Request (API_URL @ ascii ''/analyze'') (trim (addressInput s))]) (events (fst ?r))"
    by (rule try_block_events_prefix)
  have "prefix (events ?s1 @ [Request (API_URL @ ascii ''/analyze'') (trim (addressInput s))])
          (events (fst (submit eng net s)))"
    using p by (auto simp: submit_nonblank [OF assms] Let_def prefix_def split: option.splits)
  then show ?thesis
    by (simp add: submit_nonblank [OF assms] Let_def split: option.splits)
qed

theorem loading_cleared_last_witness:
  "\<not> list_all white_space (addressInput sample_page) \<and>
   hidden (fst (submit sample_engine (Rejected fetch_failed)
                  sample_page)) Loading \<and>
   last (events (fst (submit sample_engine (Rejected fetch_failed)
                  sample_page))) = ClassAdded Loading"
proof -
  have h: "\<not> list_all white_space (addressInput sample_page)"
    by (simp add: not_blank_sample)
  show ?thesis
    using h loading_cleared_last [OF h, of sample_engine "Rejected fetch_failed"] by simp
qed

subsection \<open>C6: download without a report\<close>

text \<open>
  Claim C6. When the stored report is \<open>null\<close> (nothing stored yet), \<open>undefined\<close> (the
  last result had no \<open>report_pdf\<close>) or otherwise falsy, the download handler shows
  \<open>No report available to download\<close> and does nothing else: nothing is decoded, no file
  is saved, the stored report is kept.
\<close>

theorem download_without_report:
  assumes "\<not> truthy (currentReportPDF s)"
  shows "download eng s = (showError (ascii ''No report available to download'') s, None) \<and>
         events (fst (download eng s)) =
           events s @ [TextSet ErrorP (ascii ''No report available to download''), ClassRemoved ErrorBox] \<and>
         textContent (fst (download eng s)) ErrorP = ascii ''No report available to download'' \<and>
         \<not> hidden (fst (download eng s)) ErrorBox \<and>
         currentReportPDF (fst (download eng s)) = currentReportPDF s"
proof -
  have "download eng s = (showError (ascii ''No report available to download'') s, None)"
    using assms by (simp add: download_def)
  then show ?thesis by simp
qed

theorem download_without_report_witness:
  "\<not> truthy (currentReportPDF (fresh_page [])) \<and>
   download sample_engine (fresh_page []) =
     (showError (ascii ''No report available to download'') (fresh_page []), None) \<and>
   events (fst (download sample_engine (fresh_page []))) =
     [TextSet ErrorP (ascii ''No report available to download''), ClassRemoved ErrorBox]"
proof -
  have h: "\<not> truthy (currentReportPDF (fresh_page []))" by simp
  show ?thesis using h download_without_report [OF h, of sample_engine] by simp
qed

subsection \<open>C7: errors that leave a handler\<close>

text \<open>
  The submit handler catches whatever is thrown after its validation, so it never lets an
  error out.
\<close>

lemma submit_returns: "snd (submit eng net s) = None"
  by (cases "list_all white_space (addressInput s)")
     (simp_all add: submit_blank submit_nonblank Let_def)

text \<open>
  Claim C7 fails on the download handler, which has no \<open>try\<close>: with a stored report
  that is not base64 (here the text \<open>%PDF-1.4\<close>), \<open>atob\<close> throws an
  InvalidCharacterError that leaves the handler, and the page is left as it was, with no
  message shown.
\<close>

theorem download_bad_base64_uncaught:
  "download eng (s\<lparr>currentReportPDF := String (ascii ''%PDF-1.4'')\<rparr>)
     = (s\<lparr>currentReportPDF := String (ascii ''%PDF-1.4'')\<rparr>, Some (raise eng BadBase64))"
  by (simp add: download_def decode_report_def atob_def forgiving_base64_decode_def
      strip_padding_def ascii_whitespace_def alphabet_index_def ascii_def)

subsection \<open>C8: the message of a transport failure\<close>

text \<open>
  Claim C8. For a submission with a non-blank address whose request is rejected, the
  message shown is the message of the rejection when it has one, and exactly
  \<open>Failed to analyze site. Please try again.\<close> when it has none.
\<close>

theorem transport_failure_message:
  assumes "\<not> list_all white_space (addressInput s)"
  shows "textContent (fst (submit eng (Rejected e) s)) ErrorP =
           (if message e \<noteq> [] then message e else ascii ''Failed to analyze site. Please try again.'') \<and>
         \<not> hidden (fst (submit eng (Rejected e) s)) ErrorBox"
proof -
  let ?s1 = "classList_add ErrorBox (classList_add Results (classList_remove Loading (log_event PreventDefault s)))"
  let ?s2 = "log_event (Request (API_URL @ ascii ''/analyze'') (trim (addressInput s))) ?s1"
  have "submit eng (Rejected e) s
      = (classList_add Loading (showError (shown_message e) (log_event (ConsoleError e) ?s2)), None)"
    by (simp add: submit_nonblank [OF assms] Let_def try_block_Rejected)
  then show ?thesis by (simp add: shown_message_def)
qed

theorem transport_failure_message_witness:
  "\<not> list_all white_space (addressInput sample_page) \<and>
   textContent (fst (submit sample_engine (Rejected fetch_failed)
                  sample_page)) ErrorP = ascii ''Failed to fetch'' \<and>
   textContent (fst (submit sample_engine (Rejected (Exn TypeError []))
                  sample_page)) ErrorP
     = ascii ''Failed to analyze site. Please try again.''"
proof -
  have h: "\<not> list_all white_space (addressInput sample_page)"
    by (simp add: not_blank_sample)
  show ?thesis
    using h transport_failure_message [OF h, of sample_engine fetch_failed]
      transport_failure_message [OF h, of sample_engine "Exn TypeError []"]
    by (simp add: fetch_failed_def)
qed

subsection \<open>C9: the stored report\<close>

text \<open>
  Claim C9, amended. A submission replaces the stored report exactly when its address is
  not blank and the response is successful with a parsed body other than \<open>null\<close>: the
  stored report is then the \<open>report_pdf\<close> of that body, \<open>undefined\<close> when it has
  none, whether or not the rendering that follows throws and the attempt ends with an
  error shown. Every other attempt leaves the stored report as it was: a blank address, a
  rejected request, an unsuccessful response, and a successful response whose body cannot
  be parsed or is \<open>null\<close>. The download handler never changes the stored report.
\<close>

theorem report_slot_frame:
  "currentReportPDF (fst (submit eng net s)) =
     (case (if list_all white_space (addressInput s) then None else delivered_result net) of
        None \<Rightarrow> currentReportPDF s
      | Some data \<Rightarrow> field data (ascii ''report_pdf'')) \<and>
   currentReportPDF (fst (download eng s)) = currentReportPDF s"
proof
  show "currentReportPDF (fst (download eng s)) = currentReportPDF s"
    by (simp add: download_def split: sum.splits)
next
  let ?s1 = "classList_add ErrorBox (classList_add Results (classList_remove Loading (log_event PreventDefault s)))"
  let ?rq = "Request (API_URL @ ascii ''/analyze'') (trim (addressInput s))"
  show "currentReportPDF (fst (submit eng net s)) =
     (case (if list_all white_space (addressInput s) then None else delivered_result net) of
        None \<Rightarrow> currentReportPDF s
      | Some data \<Rightarrow> field data (ascii ''report_pdf''))"
  proof (cases "list_all white_space (addressInput s)")
    case True
    then show ?thesis by (simp add: submit_blank)
  next
    case False
    have kept: "currentReportPDF (fst (submit eng net s)) = currentReportPDF s"
      if "\<exists>e. try_block eng net (trim (addressInput s)) ?s1 = (log_event ?rq ?s1, Some e)"
      using that submit_thrown_keeps [of eng net s ?rq] by blast
    show ?thesis
    proof (cases net)
      case (Rejected e)
      then show ?thesis using False kept by (simp add: try_block_Rejected)
    next
      case (Response ok b)
      show ?thesis
      proof (cases b)
        case (Unreadable e)
        then show ?thesis using False Response kept by (simp add: try_block_unreadable)
      next
        case (Json data)
        show ?thesis
        proof (cases "ok \<and> \<not> nullish data")
          case True
          then show ?thesis
            using False Response Json displayResults_stored [of data eng]
            by (simp add: submit_nonblank Let_def try_block_ok split: option.splits)
        next
          case no: False
          have "\<exists>e. try_block eng net (trim (addressInput s)) ?s1 = (log_event ?rq ?s1, Some e)"
          proof (cases ok)
            case False
            then show ?thesis using Response try_block_not_ok [of eng b] by simp
          next
            case True
            then have "nullish data" using no by simp
            then show ?thesis
              using True Response Json displayResults_nullish [of data eng "log_event ?rq ?s1"]
              by (simp add: try_block_ok)
          qed
          then show ?thesis using False Response Json no kept by auto
        qed
      qed
    qed
  qed
qed

theorem report_slot_frame_witness:
  "currentReportPDF (fst (submit sample_engine (Response True (Json sample_result)) page_with_report))
     = String (ascii ''JVBERi0='') \<and>
   currentReportPDF (fst (submit sample_engine (Response True (Json (Object []))) page_with_report)) = Undefined \<and>
   currentReportPDF (fst (submit sample_engine (Response True (Json Null)) page_with_report))
     = String (ascii ''T0xE'') \<and>
   currentReportPDF (fst (submit sample_engine (Response True (Unreadable fetch_failed)) page_with_report))
     = String (ascii ''T0xE'') \<and>
   currentReportPDF (fst (submit sample_engine (Response False (Json sample_result)) page_with_report))
     = String (ascii ''T0xE'') \<and>
   currentReportPDF (fst (submit sample_engine (Rejected fetch_failed) page_with_report))
     = String (ascii ''T0xE'') \<and>
   currentReportPDF (fst (submit sample_engine (Response True (Json sample_result))
       (page_with_report\<lparr>addressInput := ascii ''  ''\<rparr>))) = String (ascii ''T0xE'') \<and>
   currentReportPDF (fst (download sample_engine page_with_report)) = String (ascii ''T0xE'')"
proof -
  have n: "\<not> list_all white_space sample_address" by (rule not_blank_sample)
  have r: "\<not> nullish sample_result" by (simp add: sample_result_def)
  show ?thesis
    using n r
      report_slot_frame [of sample_engine "Response True (Json sample_result)" page_with_report]
      report_slot_frame [of sample_engine "Response True (Json (Object []))" page_with_report]
      report_slot_frame [of sample_engine "Response True (Json Null)" page_with_report]
      report_slot_frame [of sample_engine "Response True (Unreadable fetch_failed)" page_with_report]
      report_slot_frame [of sample_engine "Response False (Json sample_result)" page_with_report]
      report_slot_frame [of sample_engine "Rejected fetch_failed" page_with_report]
      report_slot_frame [of sample_engine "Response True (Json sample_result)"
        "page_with_report\<lparr>addressInput := ascii ''  ''\<rparr>"]
    by (simp add: sample_lookup blank_sample)
qed

text \<open>
  The stored report is not kept until the next successful analysis. On the page that holds
  the report \<open>T0xE\<close>, a successful response whose result lacks the latitude ends as a
  failed attempt, with the error box shown, the results hidden and the message of the
  \<open>TypeError\<close> as the text of the error; the stored report is the new \<open>JVBERi0=\<close>
  all the same, and the earlier one is lost.
\<close>

theorem failed_rendering_replaces_report_counterexample:
  "currentReportPDF page_with_report = String (ascii ''T0xE'') \<and>
   currentReportPDF (fst (submit sample_engine (Response True (Json (Object sample_fields))) page_with_report))
     = String (ascii ''JVBERi0='') \<and>
   String (ascii ''JVBERi0='') \<noteq> String (ascii ''T0xE'') \<and>
   textContent (fst (submit sample_engine (Response True (Json (Object sample_fields))) page_with_report)) ErrorP
     = ascii ''Cannot read properties of undefined (reading 'toFixed')'' \<and>
   \<not> hidden (fst (submit sample_engine (Response True (Json (Object sample_fields))) page_with_report)) ErrorBox \<and>
   hidden (fst (submit sample_engine (Response True (Json (Object sample_fields))) page_with_report)) Results"
proof -
  let ?d = "Object sample_fields"
  let ?s1 = "classList_add ErrorBox (classList_add Results (classList_remove Loading (log_event PreventDefault page_with_report)))"
  let ?s2 = "log_event (Request (API_URL @ ascii ''/analyze'') (trim (addressInput page_with_report))) ?s1"
  let ?r = "displayResults sample_engine ?d ?s2"
  have nb: "\<not> list_all white_space (addressInput page_with_report)" by (simp add: not_blank_sample)
  have n: "\<not> nullish ?d" by simp
  have l: "field ?d (ascii ''latitude'') = Undefined"
    and p: "field ?d (ascii ''report_pdf'') = String (ascii ''JVBERi0='')"
    and a: "field ?d (ascii ''address'') = String sample_address"
    by (simp_all add: sample_fields_def)
  have m: "shown_message (raise sample_engine (ReadOfNullish Undefined (ascii ''toFixed'')))
             = ascii ''Cannot read properties of undefined (reading 'toFixed')''"
    by (simp add: shown_message_def raise_def sample_engine_def ascii_def)
  have sub: "submit sample_engine (Response True (Json ?d)) page_with_report =
      (classList_add Loading
         (case snd ?r of None \<Rightarrow> fst ?r
          | Some e \<Rightarrow> showError (shown_message e) (log_event (ConsoleError e) (fst ?r))), None)"
    by (simp add: submit_nonblank [OF nb] Let_def try_block_ok cong: option.case_cong)
  have thrown: "snd ?r = Some (raise sample_engine (ReadOfNullish Undefined (ascii ''toFixed'')))"
    by (rule displayResults_missing_latitude [OF a l])
  have st: "currentReportPDF (fst ?r) = String (ascii ''JVBERi0='')"
    using displayResults_stored [OF n, of sample_engine ?s2] p by simp
  have "\<forall>x. field ?d (ascii ''latitude'') \<noteq> Number x" unfolding l by simp
  then obtain e s' where "?r = (s', Some e)" "hidden s' = hidden ?s2"
    using displayResults_bad_latitude [OF n, of sample_engine ?s2] by blast
  then have hid: "hidden (fst ?r) = hidden ?s2" by simp
  show ?thesis
    unfolding sub using thrown st hid m by simp
qed

subsection \<open>C10: the report is stored before anything is rendered\<close>



end
